theory Spec2Isabelle
  imports Main "HOL-Library.Sublist"
begin

section \<open>Conversation messages\<close>

text \<open>
  The messages of \<^verbatim>\<open>langchain_core.messages\<close> that \<^verbatim>\<open>sidekick.py\<close> handles: a tagged
  union of system, human, assistant and tool-result messages, each with a text content. Only an
  assistant message has the attribute \<^verbatim>\<open>tool_calls\<close>; a tool call is a name with its
  arguments.
\<close>

type_synonym tool_call = "string \<times> string"

datatype message =
    SystemMessage string
  | HumanMessage string
  | AIMessage string "tool_call list"
  | ToolMessage string

fun content :: "message \<Rightarrow> string" where
  "content (SystemMessage c) = c"
| "content (HumanMessage c) = c"
| "content (AIMessage c tcs) = c"
| "content (ToolMessage c) = c"

fun is_system :: "message \<Rightarrow> bool" where
  "is_system (SystemMessage c) = True"
| "is_system m = False"

fun is_human :: "message \<Rightarrow> bool" where
  "is_human (HumanMessage c) = True"
| "is_human m = False"

fun is_ai :: "message \<Rightarrow> bool" where
  "is_ai (AIMessage c tcs) = True"
| "is_ai m = False"

text \<open>\<^verbatim>\<open>hasattr(m, "tool_calls") and m.tool_calls\<close>: the pending tool calls, none for a message
  without the attribute.\<close>

fun pending_tool_calls :: "message \<Rightarrow> tool_call list" where
  "pending_tool_calls (AIMessage c tcs) = tcs"
| "pending_tool_calls m = []"

section \<open>\<^verbatim>\<open>Sidekick.format_conversation\<close>\<close>

text \<open>
  The loop of \<^verbatim>\<open>format_conversation\<close> threads the string \<^verbatim>\<open>conversation\<close> through the
  messages: a human message adds a \<^verbatim>\<open>User:\<close> line, an assistant message an \<^verbatim>\<open>Assistant:\<close>
  line whose text is \<^verbatim>\<open>message.content or "[Tools use]"\<close>, and no other message adds anything.
\<close>

fun format_step :: "string \<Rightarrow> message \<Rightarrow> string" where
  "format_step conversation (HumanMessage c) = conversation @ ''User: '' @ c @ ''\<newline>''"
| "format_step conversation (AIMessage c tcs) =
     conversation @ ''Assistant: '' @ (if c = [] then ''[Tools use]'' else c) @ ''\<newline>''"
| "format_step conversation m = conversation"

fun format_loop :: "string \<Rightarrow> message list \<Rightarrow> string" where
  "format_loop conversation [] = conversation"
| "format_loop conversation (m # ms) = format_loop (format_step conversation m) ms"

definition format_conversation :: "message list \<Rightarrow> string" where
  "format_conversation msgs = format_loop ''Conversation history:\<newline>\<newline>'' msgs"

section \<open>Errors, state and collaborators\<close>

text \<open>
  Exceptions are values. \<open>IndexError\<close> is Python's, raised by \<^verbatim>\<open>state["messages"][-1]\<close> on an
  empty list; \<open>ValueError\<close> is what the prebuilt tool node raises on a state whose last message
  is not an assistant message; \<open>ExternalError\<close> stands for whatever a call into a collaborator (a
  model endpoint, the browser driver, the calendar service) raises, with its text.
\<close>

datatype error = IndexError | KeyError | ValueError | ExternalError string

text \<open>
  The graph state. The class \<^verbatim>\<open>State\<close> declares \<^verbatim>\<open>messages\<close>, \<^verbatim>\<open>success_criteria\<close>,
  \<^verbatim>\<open>feedback_on_work\<close>, \<^verbatim>\<open>success_criteria_met\<close>, \<^verbatim>\<open>user_input_needed\<close> and \<^verbatim>\<open>subtasks\<close>.
  The key \<^verbatim>\<open>iterations\<close> is not declared there; the code reads it with
  \<^verbatim>\<open>state.get("iterations")\<close>, so the field is optional: \<open>None\<close> when the key is absent.
\<close>

record state =
  messages :: "message list"
  success_criteria :: string
  feedback_on_work :: "string option"
  success_criteria_met :: bool
  user_input_needed :: bool
  subtasks :: "string list option"
  iterations :: "int option"

text \<open>The pydantic model \<^verbatim>\<open>EvaluatorOutput\<close>.\<close>

record EvaluatorOutput =
  feedback :: string
  eo_success_criteria_met :: bool
  eo_user_input_needed :: bool

text \<open>
  What a chat model returns: the content and the tool calls of an assistant message.
\<close>

type_synonym ai_response = "string \<times> tool_call list"

text \<open>
  The collaborators that \<^verbatim>\<open>setup\<close> stores in the instance, each a function that returns or
  raises: the worker model bound to the tools, the evaluator model with structured output, the
  raw evaluator model, and the tools behind the prebuilt tool node (a tool's failure is turned
  into an error text by that node, so a tool call always yields a text). \<open>now\<close> is the text of
  \<^verbatim>\<open>datetime.now().strftime(...)\<close>. \<open>graph_keeps_undeclared\<close> says whether the compiled graph
  stores a key that \<^verbatim>\<open>State\<close> does not declare (here: \<^verbatim>\<open>iterations\<close>); that is a property of
  the graph library and is left open.
\<close>

record sidekick =
  now :: string
  worker_llm_with_tools :: "message list \<Rightarrow> error + ai_response"
  evaluator_llm_with_output :: "message list \<Rightarrow> error + EvaluatorOutput"
  evaluator_llm :: "message list \<Rightarrow> error + ai_response"
  run_tool :: "tool_call \<Rightarrow> string"
  graph_keeps_undeclared :: bool

section \<open>\<^verbatim>\<open>Sidekick.worker\<close>\<close>

text \<open>Python's truth value of an optional string: \<open>None\<close> and the empty string are false.\<close>

fun truthy :: "string option \<Rightarrow> bool" where
  "truthy None = False"
| "truthy (Some s) = (s \<noteq> [])"

definition worker_system_message :: "string \<Rightarrow> state \<Rightarrow> string" where
  "worker_system_message time st =
     ''You are a helpful assistant that can use tools to complete tasks.\<newline>'' @
     ''You keep working on a task until either you have a question or clarification for the user, '' @
     ''or the success criteria is met.\<newline>'' @
     ''You have many tools to help you, including tools to browse the internet, navigating and retrieving web pages.\<newline>'' @
     ''You have a tool to run python code, but note that you would need to include a print() statement '' @
     ''if you wanted to receive output.\<newline>'' @
     ''The current date and time is '' @ time @ ''\<newline>\<newline>'' @
     ''This is the success criteria:\<newline>'' @
     success_criteria st @ ''\<newline>'' @
     ''You should reply either with a question for the user about this assignment, or with your final response.\<newline>'' @
     ''If you have a question for the user, you need to reply by clearly stating your question. '' @
     ''An example might be:\<newline>\<newline>'' @
     ''Question: please clarify whether you want a summary or a detailed answer\<newline>\<newline>'' @
     ''If you've finished, reply with the final answer, and don't ask a question; simply reply with the answer.\<newline>'' @
     (case feedback_on_work st of
        None \<Rightarrow> []
      | Some fb \<Rightarrow>
          if truthy (Some fb) then
            ''\<newline>Previously you thought you completed the assignment, but your reply was rejected '' @
            ''because the success criteria was not met.\<newline>'' @
            ''Here is the feedback on why this was rejected:\<newline>'' @
            fb @ ''\<newline>'' @
            ''With this feedback, please continue the assignment, ensuring that you meet the '' @
            ''success criteria or have a question for the user.''
          else [])"

text \<open>
  The loop over \<^verbatim>\<open>messages\<close> (lines 157 to 160): every system message has its content
  overwritten, in place, and the flag \<^verbatim>\<open>found_system_message\<close> is set. The function returns
  the flag and the list as the mutation leaves it.
\<close>

fun replace_system :: "string \<Rightarrow> bool \<Rightarrow> message list \<Rightarrow> bool \<times> message list" where
  "replace_system sm found [] = (found, [])"
| "replace_system sm found (SystemMessage c # ms) =
     (let (f, ms') = replace_system sm True ms in (f, SystemMessage sm # ms'))"
| "replace_system sm found (m # ms) =
     (let (f, ms') = replace_system sm found ms in (f, m # ms'))"

text \<open>
  Lines 155 to 163: insert or replace. The result is the flag, the list held by the state after
  the loop, and the local variable \<^verbatim>\<open>messages\<close>: the same list when a system message was
  found, a new list with the system message in front otherwise.
\<close>

definition insert_or_replace :: "string \<Rightarrow> message list \<Rightarrow> bool \<times> message list \<times> message list" where
  "insert_or_replace sm msgs =
     (let (found_system_message, in_state) = replace_system sm False msgs
      in if \<not> found_system_message
         then (found_system_message, in_state, [SystemMessage sm] @ in_state)
         else (found_system_message, in_state, in_state))"

text \<open>The dictionary that \<^verbatim>\<open>worker\<close> returns.\<close>

record worker_update =
  w_messages :: "message list"
  w_iterations :: int

text \<open>
  One execution of \<^verbatim>\<open>worker\<close>, with what it did: the local \<^verbatim>\<open>messages\<close> at the end, the list
  in the state after the in-place overwrite, the arguments of every call of
  \<^verbatim>\<open>worker_llm_with_tools.invoke\<close>, and the value returned, \<open>None\<close> when the function runs off its
  end without a \<^verbatim>\<open>return\<close>.
\<close>

record worker_run =
  local_messages :: "message list"
  state_messages :: "message list"
  llm_invocations :: "message list list"
  returned :: "worker_update option"

text \<open>
  The call of the model, the increment of the counter and the \<^verbatim>\<open>return\<close> (lines 165 to 172)
  are inside \<^verbatim>\<open>if not found_system_message:\<close>, as the source indents them.
\<close>

definition worker :: "sidekick \<Rightarrow> state \<Rightarrow> error + worker_run" where
  "worker sk st =
     (let system_message = worker_system_message (now sk) st;
          (found_system_message, in_state, msgs) = insert_or_replace system_message (messages st)
      in if \<not> found_system_message then
           (case worker_llm_with_tools sk msgs of
              Inl e \<Rightarrow> Inl e
            | Inr (c, tcs) \<Rightarrow>
                Inr \<lparr>local_messages = msgs, state_messages = in_state,
                     llm_invocations = [msgs],
                     returned = Some \<lparr>w_messages = [AIMessage c tcs],
                       w_iterations = (case iterations st of None \<Rightarrow> 0 | Some i \<Rightarrow> i) + 1\<rparr>\<rparr>)
         else
           Inr \<lparr>local_messages = msgs, state_messages = in_state,
                llm_invocations = [], returned = None\<rparr>)"

section \<open>\<^verbatim>\<open>Sidekick.worker_router\<close> and \<^verbatim>\<open>Sidekick.route_based_on_evaluation\<close>\<close>

definition worker_router :: "state \<Rightarrow> error + string" where
  "worker_router st =
     (if messages st = [] then Inl IndexError
      else let last_message = last (messages st)
           in if is_ai last_message \<and> pending_tool_calls last_message \<noteq> [] then Inr ''tools''
              else Inr ''evaluator'')"

definition max_iterations :: int where
  "max_iterations = 10"

definition route_based_on_evaluation :: "state \<Rightarrow> string" where
  "route_based_on_evaluation st =
     (if (case iterations st of None \<Rightarrow> 0 | Some i \<Rightarrow> i) \<ge> max_iterations then ''END''
      else if success_criteria_met st \<or> user_input_needed st then ''END''
      else ''worker'')"

section \<open>\<^verbatim>\<open>Sidekick.evaluator\<close>\<close>

definition evaluator_system_message :: string where
  "evaluator_system_message =
     ''You are an evaluator that determines if a task has been completed successfully by an Assistant.\<newline>'' @
     ''Assess the Assistant's last response based on the given criteria. Respond with your feedback, '' @
     ''and with your decision on whether the success criteria has been met, and whether more input is needed from the user.''"

definition evaluator_user_message :: "state \<Rightarrow> string \<Rightarrow> string" where
  \<open>evaluator_user_message st last_response =
     ''You are evaluating a conversation between the User and Assistant. You decide what action to take '' @
     ''based on the last response from the Assistant.\<newline>\<newline>'' @
     ''The entire conversation with the assistant, with the user's original request and all replies, is:\<newline>'' @
     format_conversation (messages st) @ ''\<newline>\<newline>'' @
     ''The success criteria for this assignment is:\<newline>'' @
     success_criteria st @ ''\<newline>\<newline>'' @
     ''And the final response from the Assistant that you are evaluating is:\<newline>'' @
     last_response @ ''\<newline>\<newline>'' @
     ''Respond with your feedback, and decide if the success criteria is met by this response. '' @
     ''Also, decide if more user input is required, either because the assistant has a question, needs clarification, or seems to be stuck and unable to answer without help.\<newline>\<newline>'' @
     ''The Assistant has access to a tool to write files. If the Assistant says they have written a file, then you can assume they have done so.\<newline>'' @
     ''Overall you should give the Assistant the benefit of the doubt if they say they've done something. '' @
     ''But you should reject if you feel that more work should go into this.\<newline>'' @
     (case feedback_on_work st of
        None \<Rightarrow> []
      | Some fb \<Rightarrow>
          if truthy (Some fb) then
            ''Also, note that in a prior attempt from the Assistant, you provided this feedback: '' @ fb @ ''\<newline>'' @
            ''If you're seeing the Assistant repeating the same mistakes, then consider responding that user input is required.''
          else []) @
     ''\<newline>\<newline>IMPORTANT: Respond with ONLY a single valid JSON object matching the schema:\<newline>'' @
     ''{"feedback": string, "success_criteria_met": boolean, "user_input_needed": boolean}\<newline>'' @
     ''Do not include any explanatory text, bullet points, or markdown. Output must be parseable JSON and only the JSON.''\<close>

text \<open>
  \<^verbatim>\<open>str.lower\<close>, on the ASCII letters (the cue words looked for are ASCII), and Python's
  \<^verbatim>\<open>sub in text\<close> for strings, which is \<^const>\<open>sublist\<close>.
\<close>

definition lower_char :: "char \<Rightarrow> char" where
  "lower_char c =
     (let n = (of_char c :: nat) in if 65 \<le> n \<and> n \<le> 90 then char_of (n + 32) else c)"

definition lower :: "string \<Rightarrow> string" where
  "lower s = map lower_char s"

text \<open>
  The handler of the \<^verbatim>\<open>except\<close> clause, from the raw text on (lines 249 to 258): the heuristic
  and the \<^verbatim>\<open>EvaluatorOutput\<close> it builds.
\<close>

definition fallback_output :: "string \<Rightarrow> EvaluatorOutput" where
  "fallback_output raw_text =
     (let lowered = lower raw_text;
          user_needed =
            (if sublist ''?'' raw_text \<and>
                (sublist ''please'' lowered \<or> sublist ''clarify'' lowered \<or> sublist ''?'' raw_text)
             then True else False)
      in \<lparr>feedback = raw_text, eo_success_criteria_met = False, eo_user_input_needed = user_needed\<rparr>)"

text \<open>
  The \<^verbatim>\<open>try\<close> statement (lines 240 to 258): the structured call, and on any exception of it
  the raw call, which is not itself guarded.
\<close>

definition eval_result :: "sidekick \<Rightarrow> message list \<Rightarrow> error + EvaluatorOutput" where
  "eval_result sk evaluator_messages =
     (case evaluator_llm_with_output sk evaluator_messages of
        Inr r \<Rightarrow> Inr r
      | Inl e \<Rightarrow>
          (case evaluator_llm sk evaluator_messages of
             Inl e' \<Rightarrow> Inl e'
           | Inr (raw_text, tcs) \<Rightarrow> Inr (fallback_output raw_text)))"

text \<open>The dictionary \<^verbatim>\<open>new_state\<close> that \<^verbatim>\<open>evaluator\<close> returns.\<close>

record evaluator_update =
  e_messages :: "message list"
  e_feedback_on_work :: string
  e_success_criteria_met :: bool
  e_user_input_needed :: bool

definition evaluator_messages :: "state \<Rightarrow> string \<Rightarrow> message list" where
  "evaluator_messages st last_response =
     [SystemMessage evaluator_system_message,
      HumanMessage (evaluator_user_message st last_response)]"

text \<open>
  The message of the update is the dictionary \<^verbatim>\<open>{"role": "assistant", "content": ...}\<close>, which
  the reducer of \<^verbatim>\<open>messages\<close> turns into an assistant message without tool calls.
\<close>

definition evaluator :: "sidekick \<Rightarrow> state \<Rightarrow> error + evaluator_update" where
  "evaluator sk st =
     (if messages st = [] then Inl IndexError
      else
        let last_response = content (last (messages st))
        in case eval_result sk (evaluator_messages st last_response) of
             Inl e \<Rightarrow> Inl e
           | Inr r \<Rightarrow>
               Inr \<lparr>e_messages = [AIMessage (''Evaluator Feedback on this answer: '' @ feedback r) []],
                    e_feedback_on_work = feedback r,
                    e_success_criteria_met = eo_success_criteria_met r,
                    e_user_input_needed = eo_user_input_needed r\<rparr>)"

section \<open>The graph of \<^verbatim>\<open>build_graph\<close>\<close>

text \<open>
  The three nodes, and the targets of the edges. The graph engine is the library's; what the
  model takes from it is that a node's update is merged into the state, \<^verbatim>\<open>messages\<close> through
  the reducer \<^verbatim>\<open>add_messages\<close>, which appends the new messages, every other key by
  replacement; that a node returning \<^verbatim>\<open>None\<close> updates nothing; and that the prebuilt tool node
  answers every tool call of the last message by one tool-result message.
\<close>

datatype node = WORKER | TOOLS | EVALUATOR

datatype target = Node node | END

definition add_messages :: "message list \<Rightarrow> message list \<Rightarrow> message list" where
  "add_messages left right = left @ right"

definition tool_node :: "sidekick \<Rightarrow> state \<Rightarrow> error + message list" where
  "tool_node sk st =
     (if messages st = [] then Inl ValueError
      else if \<not> is_ai (last (messages st)) then Inl ValueError
      else Inr (map (\<lambda>tc. ToolMessage (run_tool sk tc)) (pending_tool_calls (last (messages st)))))"

text \<open>One node run and the merge of its update.\<close>

fun node_step :: "sidekick \<Rightarrow> node \<Rightarrow> state \<Rightarrow> error + state" where
  "node_step sk WORKER st =
     (case worker sk st of
        Inl e \<Rightarrow> Inl e
      | Inr r \<Rightarrow>
          (case returned r of
             None \<Rightarrow> Inr (st\<lparr>messages := state_messages r\<rparr>)
           | Some u \<Rightarrow>
               Inr (st\<lparr>messages := add_messages (state_messages r) (w_messages u),
                       iterations := (if graph_keeps_undeclared sk then Some (w_iterations u)
                                      else iterations st)\<rparr>)))"
| "node_step sk TOOLS st =
     (case tool_node sk st of
        Inl e \<Rightarrow> Inl e
      | Inr ms \<Rightarrow> Inr (st\<lparr>messages := add_messages (messages st) ms\<rparr>))"
| "node_step sk EVALUATOR st =
     (case evaluator sk st of
        Inl e \<Rightarrow> Inl e
      | Inr u \<Rightarrow>
          Inr (st\<lparr>messages := add_messages (messages st) (e_messages u),
                  feedback_on_work := Some (e_feedback_on_work u),
                  success_criteria_met := e_success_criteria_met u,
                  user_input_needed := e_user_input_needed u\<rparr>))"

text \<open>
  The edges (lines 295 to 298): the conditional edges look the router's answer up in their
  mapping, the edge from the tools is unconditional.
\<close>

definition lookup_edge :: "(string \<times> target) list \<Rightarrow> string \<Rightarrow> error + target" where
  "lookup_edge mapping r = (case map_of mapping r of None \<Rightarrow> Inl KeyError | Some t \<Rightarrow> Inr t)"

fun successor :: "node \<Rightarrow> state \<Rightarrow> error + target" where
  "successor WORKER st =
     (case worker_router st of
        Inl e \<Rightarrow> Inl e
      | Inr r \<Rightarrow> lookup_edge [(''tools'', Node TOOLS), (''evaluator'', Node EVALUATOR)] r)"
| "successor TOOLS st = Inr (Node WORKER)"
| "successor EVALUATOR st =
     lookup_edge [(''worker'', Node WORKER), (''END'', END)] (route_based_on_evaluation st)"

text \<open>
  A run of the graph from a node, with fuel for the number of node runs: the outcome is the
  final state, an exception, or the fuel running out; each carries the nodes run so far.
\<close>

datatype outcome =
    Finished state "node list"
  | Raised error "node list"
  | OutOfFuel "node list"

fun run_graph :: "sidekick \<Rightarrow> nat \<Rightarrow> node \<Rightarrow> state \<Rightarrow> node list \<Rightarrow> outcome" where
  "run_graph sk 0 n st tr = OutOfFuel tr"
| "run_graph sk (Suc k) n st tr =
     (case node_step sk n st of
        Inl e \<Rightarrow> Raised e (tr @ [n])
      | Inr st' \<Rightarrow>
          (case successor n st' of
             Inl e \<Rightarrow> Raised e (tr @ [n])
           | Inr END \<Rightarrow> Finished st' (tr @ [n])
           | Inr (Node n') \<Rightarrow> run_graph sk k n' st' (tr @ [n])))"

text \<open>
  What a claim reads off an outcome: the nodes run, the final state if the run came to its end,
  whether the run stopped within the fuel, and the number of worker runs.
\<close>

fun trace_of :: "outcome \<Rightarrow> node list" where
  "trace_of (Finished st tr) = tr"
| "trace_of (Raised e tr) = tr"
| "trace_of (OutOfFuel tr) = tr"

fun final_state :: "outcome \<Rightarrow> state option" where
  "final_state (Finished st tr) = Some st"
| "final_state (Raised e tr) = None"
| "final_state (OutOfFuel tr) = None"

fun halted :: "outcome \<Rightarrow> bool" where
  "halted (Finished st tr) = True"
| "halted (Raised e tr) = True"
| "halted (OutOfFuel tr) = False"

definition worker_runs :: "outcome \<Rightarrow> nat" where
  "worker_runs out = count_list (trace_of out) WORKER"

definition iterations_at_end :: "outcome \<Rightarrow> int option" where
  "iterations_at_end out = (case final_state out of None \<Rightarrow> None | Some st \<Rightarrow> iterations st)"

section \<open>\<^verbatim>\<open>Sidekick.run_superstep\<close>\<close>

text \<open>
  The dictionary \<^verbatim>\<open>state\<close> that \<^verbatim>\<open>run_superstep\<close> builds. The message is the text of the
  user; the reducer of \<^verbatim>\<open>messages\<close> makes a human message of it. The success criteria may be
  absent, and \<^verbatim>\<open>success_criteria or "..."\<close> replaces an absent or empty one.
\<close>

definition superstep_state :: "string \<Rightarrow> string option \<Rightarrow> state" where
  "superstep_state message criteria =
     \<lparr>messages = [HumanMessage message],
      success_criteria =
        (case criteria of
           None \<Rightarrow> ''The answer should be clear and accurate''
         | Some c \<Rightarrow> if truthy (Some c) then c else ''The answer should be clear and accurate''),
      feedback_on_work = None,
      success_criteria_met = False,
      user_input_needed = False,
      subtasks = None,
      iterations = Some 0\<rparr>"

text \<open>
  \<^verbatim>\<open>graph.ainvoke\<close> on the thread of this instance: the input is merged into what the
  checkpointer holds for the thread, of which the messages matter (\<open>prior\<close>), and the graph runs
  from its entry node, the worker.
\<close>

definition ainvoke :: "sidekick \<Rightarrow> nat \<Rightarrow> message list \<Rightarrow> state \<Rightarrow> outcome" where
  "ainvoke sk fuel prior inp =
     run_graph sk fuel WORKER
       (inp\<lparr>messages := add_messages prior (messages inp),
            iterations := (if graph_keeps_undeclared sk then iterations inp else None)\<rparr>) []"

text \<open>An entry of the chat history of the user interface: a role and a content.\<close>

type_synonym chat_entry = "string \<times> string"

text \<open>Python's \<^verbatim>\<open>xs[-k]\<close> for \<open>k \<ge> 1\<close>.\<close>

definition from_end :: "'a list \<Rightarrow> nat \<Rightarrow> error + 'a" where
  "from_end xs k = (if 1 \<le> k \<and> k \<le> length xs then Inr (xs ! (length xs - k)) else Inl IndexError)"

text \<open>
  \<^verbatim>\<open>run_superstep\<close>: \<open>None\<close> when the graph does not come to its end within the fuel, otherwise
  the exception or the new history.
\<close>

definition run_superstep ::
  "sidekick \<Rightarrow> nat \<Rightarrow> message list \<Rightarrow> string \<Rightarrow> string option \<Rightarrow> chat_entry list
     \<Rightarrow> (error + chat_entry list) option" where
  "run_superstep sk fuel prior message criteria history =
     (case ainvoke sk fuel prior (superstep_state message criteria) of
        OutOfFuel tr \<Rightarrow> None
      | Raised e tr \<Rightarrow> Some (Inl e)
      | Finished result tr \<Rightarrow>
          (case from_end (messages result) 2 of
             Inl e \<Rightarrow> Some (Inl e)
           | Inr m2 \<Rightarrow>
               (case from_end (messages result) 1 of
                  Inl e \<Rightarrow> Some (Inl e)
                | Inr m1 \<Rightarrow>
                    Some (Inr (history @
                      [(''user'', message), (''assistant'', content m2), (''assistant'', content m1)])))))"

section \<open>\<^verbatim>\<open>Sidekick.cleanup\<close> and \<^verbatim>\<open>free_resources\<close>\<close>

text \<open>
  The two fields of the instance that \<^verbatim>\<open>cleanup\<close> reads, each \<open>None\<close> or a handle, and what it
  does with them: it schedules a release as a task on the running loop, or runs it to its end
  with \<^verbatim>\<open>asyncio.run\<close>. \<^verbatim>\<open>cleanup\<close> assigns to neither field.
\<close>

type_synonym handle = nat

record handles =
  browser :: "handle option"
  playwright :: "handle option"

datatype release = CloseBrowser | StopPlaywright

datatype effect = Scheduled release | RunSync release

text \<open>
  The surroundings of a call: whether \<^verbatim>\<open>asyncio.get_running_loop()\<close> finds a loop, the releases
  performed so far, and what \<^verbatim>\<open>asyncio.run\<close> of a release raises, if anything, as the driver
  decides from what was performed before.
\<close>

record runtime =
  loop_running :: bool
  performed :: "effect list"
  sync_raises :: "effect list \<Rightarrow> release \<Rightarrow> error option"

definition run_sync :: "release \<Rightarrow> runtime \<Rightarrow> error option \<times> runtime" where
  "run_sync r rt =
     (case sync_raises rt (performed rt) r of
        Some e \<Rightarrow> (Some e, rt)
      | None \<Rightarrow> (None, rt\<lparr>performed := performed rt @ [RunSync r]\<rparr>))"

definition create_task :: "release \<Rightarrow> runtime \<Rightarrow> runtime" where
  "create_task r rt = rt\<lparr>performed := performed rt @ [Scheduled r]\<rparr>"

text \<open>\<^verbatim>\<open>cleanup\<close> returns the exception it raises, if any, and the surroundings as it leaves them.\<close>

definition cleanup :: "handles \<Rightarrow> runtime \<Rightarrow> error option \<times> runtime" where
  "cleanup self rt =
     (if browser self = None then (None, rt)
      else if loop_running rt then
        (let rt1 = create_task CloseBrowser rt
         in if playwright self \<noteq> None then (None, create_task StopPlaywright rt1)
            else (None, rt1))
      else
        (case run_sync CloseBrowser rt of
           (Some e, rt1) \<Rightarrow> (Some e, rt1)
         | (None, rt1) \<Rightarrow>
             if playwright self \<noteq> None then run_sync StopPlaywright rt1 else (None, rt1)))"

fun str_error :: "error \<Rightarrow> string" where
  "str_error (ExternalError s) = s"
| "str_error IndexError = ''list index out of range''"
| "str_error e = []"

text \<open>
  \<^verbatim>\<open>free_resources\<close> of \<^verbatim>\<open>app.py\<close>: the lines printed and the surroundings afterwards. It has no
  way to raise what \<^verbatim>\<open>cleanup\<close> raises.
\<close>

definition free_resources :: "handles option \<Rightarrow> runtime \<Rightarrow> string list \<times> runtime" where
  "free_resources sidekick rt =
     (case sidekick of
        None \<Rightarrow> ([''Cleaning up''], rt)
      | Some self \<Rightarrow>
          (case cleanup self rt of
             (None, rt') \<Rightarrow> ([''Cleaning up''], rt')
           | (Some e, rt') \<Rightarrow>
               ([''Cleaning up'', ''Exception during cleanup: '' @ str_error e], rt')))"

section \<open>The calendar tools of \<^verbatim>\<open>sidekick_tool.py\<close>\<close>

text \<open>
  What the calendar client can raise inside \<^verbatim>\<open>create_calendar_event\<close>: an \<^verbatim>\<open>HttpError\<close>, whose
  content is bytes (with the text they decode to, if they decode) or already a text, or another
  exception; each with its own text \<^verbatim>\<open>str(e)\<close>.
\<close>

datatype http_content = Bytes "string option" | Text string

datatype api_exception = HttpError http_content string | OtherException string

record event_body =
  body_summary :: string
  body_description :: string
  body_start :: "string \<times> string"
  body_end :: "string \<times> string"

text \<open>
  An event of a listing: its \<^verbatim>\<open>start\<close> entry, if present, with the optional \<^verbatim>\<open>dateTime\<close> and
  \<^verbatim>\<open>date\<close>, and its optional \<^verbatim>\<open>summary\<close>.
\<close>

record event =
  ev_start :: "(string option \<times> string option) option"
  ev_summary :: "string option"

text \<open>
  The surroundings of the calendar tools: the environment variable, the construction of the
  service from the token file, the two calls of the service and the clock. \<open>events_insert\<close>
  gives \<^verbatim>\<open>created.get('htmlLink')\<close>, \<open>events_list\<close> gives \<^verbatim>\<open>events_result.get("items", [])\<close>.
\<close>

record calendar =
  getenv_calendar_id :: "string option"
  get_calendar_service :: "error option"
  events_insert :: "string \<Rightarrow> event_body \<Rightarrow> api_exception + string option"
  events_list :: "string \<Rightarrow> string \<Rightarrow> int \<Rightarrow> error + event list"
  utcnow_isoformat :: string

text \<open>\<^verbatim>\<open>calendar_id or os.getenv("GOOGLE_CALENDAR_ID", "primary")\<close>.\<close>

definition cal_id_of :: "calendar \<Rightarrow> string option \<Rightarrow> string" where
  "cal_id_of cal calendar_id =
     (case calendar_id of
        Some c \<Rightarrow> if truthy (Some c) then c
                  else (case getenv_calendar_id cal of None \<Rightarrow> ''primary'' | Some v \<Rightarrow> v)
      | None \<Rightarrow> (case getenv_calendar_id cal of None \<Rightarrow> ''primary'' | Some v \<Rightarrow> v))"

text \<open>The text of an optional string in an f-string: \<^verbatim>\<open>None\<close> prints as \<^verbatim>\<open>None\<close>.\<close>

fun str_opt :: "string option \<Rightarrow> string" where
  "str_opt None = ''None''"
| "str_opt (Some s) = s"

definition create_calendar_event ::
  "calendar \<Rightarrow> string \<Rightarrow> string \<Rightarrow> string \<Rightarrow> string \<Rightarrow> string option \<Rightarrow> string \<Rightarrow> error + string" where
  "create_calendar_event cal summary start_iso end_iso description calendar_id timezone =
     (let cal_id = cal_id_of cal calendar_id
      in case get_calendar_service cal of
           Some e \<Rightarrow> Inl e
         | None \<Rightarrow>
             (let ev = \<lparr>body_summary = summary, body_description = description,
                        body_start = (start_iso, timezone), body_end = (end_iso, timezone)\<rparr>
              in case events_insert cal cal_id ev of
                   Inr html_link \<Rightarrow> Inr (''Event created: '' @ str_opt html_link)
                 | Inl (HttpError (Bytes (Some decoded)) str_e) \<Rightarrow>
                     Inr (''Calendar API error: '' @ decoded)
                 | Inl (HttpError (Bytes None) str_e) \<Rightarrow>
                     Inr (''Calendar API exception: '' @ str_e)
                 | Inl (HttpError (Text t) str_e) \<Rightarrow> Inr (''Calendar API error: '' @ t)
                 | Inl (OtherException str_e) \<Rightarrow> Inr (''Calendar API exception: '' @ str_e)))"

text \<open>
  The separator of a line of the listing, as the bytes of the source file have it, and
  \<^verbatim>\<open>sep.join(lines)\<close>.
\<close>

definition line_separator :: string where
  "line_separator = [CHR '' '', CHR 0xC3, CHR 0xA2, CHR 0xE2, CHR 0x82, CHR 0xAC, CHR 0xE2, CHR 0x80, CHR 0x9D, CHR '' '']"

fun join :: "string \<Rightarrow> string list \<Rightarrow> string" where
  "join sep [] = []"
| "join sep [x] = x"
| "join sep (x # y # ys) = x @ sep @ join sep (y # ys)"

text \<open>The body of the loop: \<^verbatim>\<open>evt["start"]\<close> and \<^verbatim>\<open>evt['summary']\<close> raise on a missing key.\<close>

definition event_line :: "event \<Rightarrow> error + string" where
  "event_line evt =
     (case ev_start evt of
        None \<Rightarrow> Inl KeyError
      | Some (date_time, date) \<Rightarrow>
          (let start = (case date_time of Some d \<Rightarrow> Some d | None \<Rightarrow> date)
           in case ev_summary evt of
                None \<Rightarrow> Inl KeyError
              | Some s \<Rightarrow> Inr (str_opt start @ line_separator @ s)))"

fun event_lines :: "event list \<Rightarrow> string list \<Rightarrow> error + string list" where
  "event_lines [] lines = Inr lines"
| "event_lines (evt # evts) lines =
     (case event_line evt of
        Inl e \<Rightarrow> Inl e
      | Inr l \<Rightarrow> event_lines evts (lines @ [l]))"

definition list_upcoming_events :: "calendar \<Rightarrow> string option \<Rightarrow> int \<Rightarrow> error + string" where
  "list_upcoming_events cal calendar_id max_results =
     (let cal_id = cal_id_of cal calendar_id
      in case get_calendar_service cal of
           Some e \<Rightarrow> Inl e
         | None \<Rightarrow>
             (let now_z = utcnow_isoformat cal @ ''Z''
              in case events_list cal cal_id now_z max_results of
                   Inl e \<Rightarrow> Inl e
                 | Inr events \<Rightarrow>
                     if events = [] then Inr ''No upcoming events found.''
                     else (case event_lines events [] of
                             Inl e \<Rightarrow> Inl e
                           | Inr lines \<Rightarrow> Inr (join ''\<newline>'' lines))))"

section \<open>Invariants of a run\<close>

text \<open>
  The invariant of a run at the entry of a node, over the state and the nodes run so far, and
  what it gives for the outcome of a run of any length.
\<close>

definition entry_ok :: "node \<Rightarrow> state \<Rightarrow> node list \<Rightarrow> bool" where
  "entry_ok n st tr \<longleftrightarrow>
     \<not> list_ex is_system (messages st)
     \<and> iterations st = Some (int (count_list tr WORKER))
     \<and> count_list tr EVALUATOR \<le> 9
     \<and> count_list tr WORKER =
         count_list tr EVALUATOR + count_list tr TOOLS + (if n = WORKER then 0 else 1)"

definition counts_ok :: "outcome \<Rightarrow> bool" where
  "counts_ok out \<longleftrightarrow>
     count_list (trace_of out) EVALUATOR \<le> 10
     \<and> count_list (trace_of out) WORKER \<le>
         count_list (trace_of out) EVALUATOR + count_list (trace_of out) TOOLS + 1
     \<and> (case final_state out of
           None \<Rightarrow> True
         | Some st \<Rightarrow>
             iterations st = Some (int (count_list (trace_of out) WORKER))
             \<and> count_list (trace_of out) WORKER =
                 count_list (trace_of out) EVALUATOR + count_list (trace_of out) TOOLS)"

text \<open>
  What holds of a turn without tool requests: it stops, after at most 10 worker runs, and at its
  end the counter is the number of worker runs and the run ended on a flag or at the cap.
\<close>

definition turn_ok :: "outcome \<Rightarrow> bool" where
  "turn_ok out \<longleftrightarrow>
     halted out \<and> worker_runs out \<le> 10 \<and>
     (case final_state out of None \<Rightarrow> True
      | Some st \<Rightarrow>
          iterations st = Some (int (worker_runs out))
          \<and> (success_criteria_met st \<or> user_input_needed st \<or> iterations st = Some 10))"

section \<open>Concrete inputs\<close>

text \<open>A state whose last message is an assistant message with one pending tool call.\<close>

definition st_tools :: state where
  "st_tools =
     \<lparr>messages = [HumanMessage ''find it'', AIMessage [] [(''search'', ''capital of France'')]],
      success_criteria = ''a city'', feedback_on_work = None, success_criteria_met = False,
      user_input_needed = False, subtasks = None, iterations = Some 1\<rparr>"

text \<open>
  Instances for the evaluator: one whose structured call fails while the raw model answers a
  given text, one whose two evaluator calls both fail, one whose structured call returns a
  given verdict; and a state in which the assistant has answered.
\<close>

definition sk_plain :: "string \<Rightarrow> sidekick" where
  "sk_plain raw =
     \<lparr>now = ''2025-01-01 09:00:00'',
      worker_llm_with_tools = (\<lambda>msgs. Inr (''It is 4.'', [])),
      evaluator_llm_with_output = (\<lambda>msgs. Inl (ExternalError ''OutputParserException'')),
      evaluator_llm = (\<lambda>msgs. Inr (raw, [])),
      run_tool = (\<lambda>tc. ''Paris''),
      graph_keeps_undeclared = True\<rparr>"

definition sk_down :: sidekick where
  "sk_down =
     \<lparr>now = ''2025-01-01 09:00:00'',
      worker_llm_with_tools = (\<lambda>msgs. Inr (''It is 4.'', [])),
      evaluator_llm_with_output = (\<lambda>msgs. Inl (ExternalError ''APIConnectionError'')),
      evaluator_llm = (\<lambda>msgs. Inl (ExternalError ''APIConnectionError'')),
      run_tool = (\<lambda>tc. ''Paris''),
      graph_keeps_undeclared = True\<rparr>"

definition st_answered :: state where
  "st_answered =
     \<lparr>messages = [HumanMessage ''What is 2+2?'', AIMessage ''It is 4.'' []],
      success_criteria = ''a numeric answer'', feedback_on_work = None, success_criteria_met = False,
      user_input_needed = False, subtasks = None, iterations = Some 1\<rparr>"

definition sk_judge :: "EvaluatorOutput \<Rightarrow> sidekick" where
  "sk_judge v =
     \<lparr>now = ''2025-01-01 09:00:00'',
      worker_llm_with_tools = (\<lambda>msgs. Inr (''It is 4.'', [])),
      evaluator_llm_with_output = (\<lambda>msgs. Inr v),
      evaluator_llm = (\<lambda>msgs. Inr ([], [])),
      run_tool = (\<lambda>tc. ''Paris''),
      graph_keeps_undeclared = True\<rparr>"

text \<open>
  An instance that holds a browser and a driver; surroundings whose driver raises on a second
  synchronous release of the same thing, and surroundings where no release raises.
\<close>

definition self_set :: handles where
  "self_set = \<lparr>browser = Some 1, playwright = Some 2\<rparr>"

definition rt_strict :: "bool \<Rightarrow> runtime" where
  "rt_strict running =
     \<lparr>loop_running = running, performed = [],
      sync_raises = (\<lambda>log r. if RunSync r \<in> set log
                               then Some (ExternalError ''Target closed'') else None)\<rparr>"

definition rt_calm :: "bool \<Rightarrow> runtime" where
  "rt_calm running = \<lparr>loop_running = running, performed = [], sync_raises = (\<lambda>log r. None)\<rparr>"

text \<open>
  Calendars: one whose token file is missing, one that works and lists given events, one whose
  calls are refused by the service.
\<close>

definition cal_no_token :: calendar where
  "cal_no_token =
     \<lparr>getenv_calendar_id = None,
      get_calendar_service = Some (ExternalError ''No such file or directory: token.json''),
      events_insert = (\<lambda>cid b. Inr (Some ''https://calendar.example/e1'')),
      events_list = (\<lambda>cid tmin n. Inr []),
      utcnow_isoformat = ''2025-05-20T15:00:00''\<rparr>"

definition cal_ok :: "event list \<Rightarrow> calendar" where
  "cal_ok evs =
     \<lparr>getenv_calendar_id = None,
      get_calendar_service = None,
      events_insert = (\<lambda>cid b. Inr (Some ''https://calendar.example/e1'')),
      events_list = (\<lambda>cid tmin n. Inr evs),
      utcnow_isoformat = ''2025-05-20T15:00:00''\<rparr>"

definition cal_refused :: calendar where
  "cal_refused =
     \<lparr>getenv_calendar_id = None,
      get_calendar_service = None,
      events_insert = (\<lambda>cid b. Inl (HttpError (Bytes (Some ''Forbidden'')) ''HttpError 403'')),
      events_list = (\<lambda>cid tmin n. Inl (ExternalError ''HttpError 403'')),
      utcnow_isoformat = ''2025-05-20T15:00:00''\<rparr>"

text \<open>A verdict that accepts the answer.\<close>

definition verdict_met :: EvaluatorOutput where
  "verdict_met = \<lparr>feedback = ''Correct.'', eo_success_criteria_met = True, eo_user_input_needed = False\<rparr>"

text \<open>
  An instance whose worker model requests a search while its prompt has fewer than 22 messages
  and answers after that, and whose evaluator accepts.
\<close>

definition sk_search :: sidekick where
  "sk_search =
     \<lparr>now = ''2025-01-01 09:00:00'',
      worker_llm_with_tools =
        (\<lambda>msgs. if length msgs < 22 then Inr ([], [(''search'', ''capital of France'')])
                 else Inr (''Paris.'', [])),
      evaluator_llm_with_output = (\<lambda>msgs. Inr verdict_met),
      evaluator_llm = (\<lambda>msgs. Inr ([], [])),
      run_tool = (\<lambda>tc. ''Paris''),
      graph_keeps_undeclared = True\<rparr>"

text \<open>A verdict that rejects the answer and does not ask for the user.\<close>

definition verdict_rejected :: EvaluatorOutput where
  "verdict_rejected =
     \<lparr>feedback = ''Not yet.'', eo_success_criteria_met = False, eo_user_input_needed = False\<rparr>"

section \<open>Properties of \<^verbatim>\<open>format_conversation\<close>\<close>

lemma format_loop_append:
  "format_loop acc (xs @ ys) = format_loop (format_loop acc xs) ys"
  by (induction xs arbitrary: acc) simp_all

lemma format_loop_filter:
  "format_loop acc (filter (\<lambda>m. is_human m \<or> is_ai m) ms) = format_loop acc ms"
proof (induction ms arbitrary: acc)
  case Nil
  show ?case by simp
next
  case (Cons m ms)
  show ?case by (cases m) (simp_all add: Cons.IH)
qed

lemma evaluator_user_message_filter:
  "evaluator_user_message (st\<lparr>messages := filter (\<lambda>m. is_human m \<or> is_ai m) ms\<rparr>) last_response =
   evaluator_user_message (st\<lparr>messages := ms\<rparr>) last_response"
  by (simp add: evaluator_user_message_def format_conversation_def format_loop_filter)

text \<open>
  Claim C10. The conversation text built for the Critic holds only the human and the assistant
  messages: deleting every system and tool-result message from the list leaves the text
  unchanged, appending a system or a tool-result message adds nothing, a human message adds the
  line \<^verbatim>\<open>User: <content>\<close>, and an assistant message adds \<^verbatim>\<open>Assistant: <content>\<close>, with the
  placeholder \<^verbatim>\<open>[Tools use]\<close> where its content is empty. The two messages sent to the Critic
  depend on the history through this text only: with the quoted last response fixed, they are
  the same with and without the system and tool-result messages of the history.
\<close>

theorem format_conversation_human_ai_only:
  "format_conversation [] = ''Conversation history:\<newline>\<newline>''
   \<and> format_conversation (filter (\<lambda>m. is_human m \<or> is_ai m) ms) = format_conversation ms
   \<and> format_conversation (ms @ [SystemMessage s]) = format_conversation ms
   \<and> format_conversation (ms @ [ToolMessage t]) = format_conversation ms
   \<and> format_conversation (ms @ [HumanMessage u]) =
       format_conversation ms @ ''User: '' @ u @ ''\<newline>''
   \<and> format_conversation (ms @ [AIMessage [] tcs]) =
       format_conversation ms @ ''Assistant: [Tools use]\<newline>''
   \<and> format_conversation (ms @ [AIMessage (c # cs) tcs]) =
       format_conversation ms @ ''Assistant: '' @ (c # cs) @ ''\<newline>''
   \<and> evaluator_messages (st\<lparr>messages := filter (\<lambda>m. is_human m \<or> is_ai m) ms\<rparr>) last_response =
       evaluator_messages (st\<lparr>messages := ms\<rparr>) last_response"
proof -
  have prompt: "evaluator_messages (st\<lparr>messages := filter (\<lambda>m. is_human m \<or> is_ai m) ms\<rparr>) last_response =
       evaluator_messages (st\<lparr>messages := ms\<rparr>) last_response"
    by (simp only: evaluator_messages_def evaluator_user_message_filter)
  have conv: "format_conversation [] = ''Conversation history:\<newline>\<newline>''
   \<and> format_conversation (filter (\<lambda>m. is_human m \<or> is_ai m) ms) = format_conversation ms
   \<and> format_conversation (ms @ [SystemMessage s]) = format_conversation ms
   \<and> format_conversation (ms @ [ToolMessage t]) = format_conversation ms
   \<and> format_conversation (ms @ [HumanMessage u]) =
       format_conversation ms @ ''User: '' @ u @ ''\<newline>''
   \<and> format_conversation (ms @ [AIMessage [] tcs]) =
       format_conversation ms @ ''Assistant: [Tools use]\<newline>''
   \<and> format_conversation (ms @ [AIMessage (c # cs) tcs]) =
       format_conversation ms @ ''Assistant: '' @ (c # cs) @ ''\<newline>''"
    by (simp add: format_conversation_def format_loop_append format_loop_filter)
  from conv prompt show ?thesis by simp
qed

section \<open>The routing of the graph\<close>

text \<open>
  Claim C4. The routing is exactly this. From the worker, on a state with a latest message, the
  graph goes to the tools when that message carries one or more pending tool calls and to the
  evaluator otherwise; from the tools it always goes back to the worker; from the evaluator it
  ends when the counter is at least 10 or the criteria are met or user input is needed, and
  goes back to the worker otherwise.
\<close>

theorem routing_exact:
  "(messages st \<noteq> [] \<longrightarrow>
      successor WORKER st =
        Inr (if pending_tool_calls (last (messages st)) \<noteq> [] then Node TOOLS else Node EVALUATOR))
   \<and> successor TOOLS st = Inr (Node WORKER)
   \<and> successor EVALUATOR st =
        Inr (if (case iterations st of None \<Rightarrow> 0 | Some i \<Rightarrow> i) \<ge> 10
                \<or> success_criteria_met st \<or> user_input_needed st
             then END else Node WORKER)"
proof -
  have w: "messages st \<noteq> [] \<Longrightarrow> successor WORKER st =
        Inr (if pending_tool_calls (last (messages st)) \<noteq> [] then Node TOOLS else Node EVALUATOR)"
    by (cases "last (messages st)") (simp_all add: worker_router_def lookup_edge_def)
  have e: "successor EVALUATOR st =
        Inr (if (case iterations st of None \<Rightarrow> 0 | Some i \<Rightarrow> i) \<ge> 10
                \<or> success_criteria_met st \<or> user_input_needed st
             then END else Node WORKER)"
    by (simp add: route_based_on_evaluation_def lookup_edge_def max_iterations_def)
  from w e show ?thesis by simp
qed

theorem routing_exact_witness:
  "messages st_tools \<noteq> []
   \<and> successor WORKER st_tools = Inr (Node TOOLS)
   \<and> successor TOOLS st_tools = Inr (Node WORKER)
   \<and> successor EVALUATOR st_tools = Inr (Node WORKER)
   \<and> successor EVALUATOR (st_tools\<lparr>iterations := Some 10\<rparr>) = Inr END
   \<and> successor EVALUATOR (st_tools\<lparr>user_input_needed := True\<rparr>) = Inr END"
  using routing_exact [of st_tools] routing_exact [of "st_tools\<lparr>iterations := Some 10\<rparr>"]
    routing_exact [of "st_tools\<lparr>user_input_needed := True\<rparr>"]
  by (simp add: st_tools_def)

section \<open>The system message of the worker\<close>

lemma worker_system_message_messages [simp]:
  "worker_system_message t (st\<lparr>messages := ms\<rparr>) = worker_system_message t st"
  by (simp add: worker_system_message_def)

lemma replace_system_snd:
  "snd (replace_system sm f ms) = map (\<lambda>m. if is_system m then SystemMessage sm else m) ms"
proof (induction ms arbitrary: f)
  case Nil
  show ?case by simp
next
  case (Cons m ms)
  show ?case by (cases m) (simp_all add: Cons.IH split_beta)
qed

lemma replace_system_fst:
  "fst (replace_system sm f ms) = (f \<or> list_ex is_system ms)"
proof (induction ms arbitrary: f)
  case Nil
  show ?case by simp
next
  case (Cons m ms)
  show ?case by (cases m) (simp_all add: Cons.IH split_beta)
qed

lemma map_no_system:
  "\<not> list_ex is_system ms \<Longrightarrow> map (\<lambda>m. if is_system m then SystemMessage sm else m) ms = ms"
  by (induction ms) simp_all

lemma insert_or_replace_absent:
  "\<not> list_ex is_system ms \<Longrightarrow> insert_or_replace sm ms = (False, ms, SystemMessage sm # ms)"
  using replace_system_fst [of sm False ms] replace_system_snd [of sm False ms]
  by (simp add: insert_or_replace_def split_beta map_no_system)

lemma insert_or_replace_present:
  "list_ex is_system ms \<Longrightarrow>
     insert_or_replace sm ms =
       (True, map (\<lambda>m. if is_system m then SystemMessage sm else m) ms,
              map (\<lambda>m. if is_system m then SystemMessage sm else m) ms)"
  using replace_system_fst [of sm False ms] replace_system_snd [of sm False ms]
  by (simp add: insert_or_replace_def split_beta)

lemma filter_system_overwrite:
  "filter is_system (map (\<lambda>m. if is_system m then SystemMessage sm else m) ms) =
     replicate (length (filter is_system ms)) (SystemMessage sm)"
  by (induction ms) simp_all

text \<open>
  Claim C5, as the code has it. A list with two system messages keeps both: the loop overwrites
  each of them and removes none.
\<close>

theorem insert_or_replace_two_system_messages:
  "insert_or_replace ''new'' [SystemMessage ''a'', SystemMessage ''b'', HumanMessage ''hi''] =
     (True, [SystemMessage ''new'', SystemMessage ''new'', HumanMessage ''hi''],
            [SystemMessage ''new'', SystemMessage ''new'', HumanMessage ''hi''])
   \<and> length (filter is_system [SystemMessage ''new'', SystemMessage ''new'', HumanMessage ''hi'']) = 2"
  by (simp add: insert_or_replace_def)

text \<open>
  Claim C5, amended. In the message list that the worker assembles: when no system message was
  present, exactly one is put in front of the unchanged list; when one was present, every system
  message is overwritten where it stands and nothing is added; so a list that came with at most
  one system message leaves with exactly one, carrying the new text.
\<close>

theorem insert_or_replace_one_system_message:
  "(\<not> list_ex is_system ms \<longrightarrow> insert_or_replace sm ms = (False, ms, SystemMessage sm # ms))
   \<and> (list_ex is_system ms \<longrightarrow>
        insert_or_replace sm ms =
          (True, map (\<lambda>m. if is_system m then SystemMessage sm else m) ms,
                 map (\<lambda>m. if is_system m then SystemMessage sm else m) ms))
   \<and> (length (filter is_system ms) \<le> 1 \<longrightarrow>
        filter is_system (snd (snd (insert_or_replace sm ms))) = [SystemMessage sm])"
proof -
  have c: "length (filter is_system ms) \<le> 1 \<Longrightarrow>
        filter is_system (snd (snd (insert_or_replace sm ms))) = [SystemMessage sm]"
  proof (cases "list_ex is_system ms")
    case False
    assume "length (filter is_system ms) \<le> 1"
    from False have "filter is_system ms = []"
      by (induction ms) (simp_all split: if_splits)
    with False show ?thesis by (simp add: insert_or_replace_absent)
  next
    case True
    assume le: "length (filter is_system ms) \<le> 1"
    from True have "filter is_system ms \<noteq> []"
      by (induction ms) (auto split: if_splits)
    with le have "length (filter is_system ms) = 1"
      by (cases "filter is_system ms") simp_all
    with True show ?thesis
      by (simp add: insert_or_replace_present filter_system_overwrite)
  qed
  from c show ?thesis
    by (simp add: insert_or_replace_absent insert_or_replace_present)
qed

theorem insert_or_replace_one_system_message_witness:
  "\<not> list_ex is_system [HumanMessage ''hi'']
   \<and> insert_or_replace ''new'' [HumanMessage ''hi''] =
       (False, [HumanMessage ''hi''], [SystemMessage ''new'', HumanMessage ''hi''])
   \<and> list_ex is_system [HumanMessage ''hi'', SystemMessage ''old'']
   \<and> insert_or_replace ''new'' [HumanMessage ''hi'', SystemMessage ''old''] =
       (True, [HumanMessage ''hi'', SystemMessage ''new''], [HumanMessage ''hi'', SystemMessage ''new''])
   \<and> length (filter is_system [HumanMessage ''hi'', SystemMessage ''old'']) \<le> 1
   \<and> filter is_system (snd (snd (insert_or_replace ''new'' [HumanMessage ''hi'', SystemMessage ''old'']))) =
       [SystemMessage ''new'']"
  using insert_or_replace_one_system_message [of "[HumanMessage ''hi'']" "''new''"]
    insert_or_replace_one_system_message [of "[HumanMessage ''hi'', SystemMessage ''old'']" "''new''"]
  by simp

section \<open>The two branches of the worker\<close>

lemma worker_absent:
  "\<not> list_ex is_system (messages st) \<Longrightarrow>
     worker sk st =
       (case worker_llm_with_tools sk (SystemMessage (worker_system_message (now sk) st) # messages st) of
          Inl e \<Rightarrow> Inl e
        | Inr (c, tcs) \<Rightarrow>
            Inr \<lparr>local_messages = SystemMessage (worker_system_message (now sk) st) # messages st,
                 state_messages = messages st,
                 llm_invocations = [SystemMessage (worker_system_message (now sk) st) # messages st],
                 returned = Some \<lparr>w_messages = [AIMessage c tcs],
                   w_iterations = (case iterations st of None \<Rightarrow> 0 | Some i \<Rightarrow> i) + 1\<rparr>\<rparr>)"
  by (simp add: worker_def insert_or_replace_absent Let_def)

lemma worker_present:
  "list_ex is_system (messages st) \<Longrightarrow>
     worker sk st =
       Inr \<lparr>local_messages = map (\<lambda>m. if is_system m then SystemMessage (worker_system_message (now sk) st) else m) (messages st),
            state_messages = map (\<lambda>m. if is_system m then SystemMessage (worker_system_message (now sk) st) else m) (messages st),
            llm_invocations = [], returned = None\<rparr>"
  by (simp add: worker_def insert_or_replace_present Let_def)

text \<open>
  Claim C2, on the code. Entered with a system message already in the history, the worker
  overwrites it and runs off its end: the model is not invoked, nothing is returned, and the
  graph state keeps its messages (no assistant message is added) and its counter.
\<close>

theorem worker_skips_llm_when_system_message_present:
  "worker sk (st\<lparr>messages := [SystemMessage old, HumanMessage q]\<rparr>) =
     Inr \<lparr>local_messages = [SystemMessage (worker_system_message (now sk) st), HumanMessage q],
          state_messages = [SystemMessage (worker_system_message (now sk) st), HumanMessage q],
          llm_invocations = [], returned = None\<rparr>
   \<and> node_step sk WORKER (st\<lparr>messages := [SystemMessage old, HumanMessage q]\<rparr>) =
     Inr (st\<lparr>messages := [SystemMessage (worker_system_message (now sk) st), HumanMessage q]\<rparr>)"
  by (simp add: worker_present)

section \<open>The evaluator\<close>

lemma sublist_single:
  "sublist [c] s \<longleftrightarrow> c \<in> set s"
  by (induction s) (auto simp: sublist_Cons_right)

lemma fallback_output_eq:
  "fallback_output raw_text =
     \<lparr>feedback = raw_text, eo_success_criteria_met = False,
      eo_user_input_needed = (CHR ''?'' \<in> set raw_text)\<rparr>"
  by (auto simp: fallback_output_def Let_def sublist_single)

text \<open>
  Claim C3, as the code has it. With the structured call failing and the raw model answering
  \<^verbatim>\<open>Is the report done?\<close>, a text with a question mark and neither cue word, the verdict
  asks for user input: the last disjunct of the condition is the question mark itself. And when
  the raw call raises as well, the exception leaves the evaluator.
\<close>

theorem fallback_question_mark_alone:
  "eval_result (sk_plain ''Is the report done?'') (evaluator_messages st_answered ''It is 4.'') =
     Inr \<lparr>feedback = ''Is the report done?'', eo_success_criteria_met = False,
          eo_user_input_needed = True\<rparr>
   \<and> \<not> sublist ''please'' (lower ''Is the report done?'')
   \<and> \<not> sublist ''clarify'' (lower ''Is the report done?'')
   \<and> eval_result sk_down (evaluator_messages st_answered ''It is 4.'') =
       Inl (ExternalError ''APIConnectionError'')"
proof -
  have a: "eval_result (sk_plain ''Is the report done?'') (evaluator_messages st_answered ''It is 4.'') =
     Inr \<lparr>feedback = ''Is the report done?'', eo_success_criteria_met = False,
          eo_user_input_needed = True\<rparr>"
    by (simp add: eval_result_def sk_plain_def fallback_output_eq)
  have b: "\<not> sublist ''please'' (lower ''Is the report done?'')"
    by code_simp
  have c: "\<not> sublist ''clarify'' (lower ''Is the report done?'')"
    by code_simp
  have d: "eval_result sk_down (evaluator_messages st_answered ''It is 4.'') =
       Inl (ExternalError ''APIConnectionError'')"
    by (simp add: eval_result_def sk_down_def)
  from a b c d show ?thesis by simp
qed

text \<open>
  Claim C3, amended. When the structured call raises and the raw call returns a text, the
  \<^verbatim>\<open>try\<close> statement yields a verdict, raising nothing: the criteria are not met, the feedback
  is the raw text, and user input is needed exactly when the raw text contains a question mark.
\<close>

theorem fallback_verdict:
  assumes "evaluator_llm_with_output sk ems = Inl e"
      and "evaluator_llm sk ems = Inr (raw_text, tcs)"
  shows "eval_result sk ems =
           Inr \<lparr>feedback = raw_text, eo_success_criteria_met = False,
                eo_user_input_needed = (CHR ''?'' \<in> set raw_text)\<rparr>"
  using assms by (simp add: eval_result_def fallback_output_eq)

theorem fallback_verdict_witness:
  "eval_result (sk_plain ''All good.'') (evaluator_messages st_answered ''It is 4.'') =
     Inr \<lparr>feedback = ''All good.'', eo_success_criteria_met = False, eo_user_input_needed = False\<rparr>"
proof -
  have a: "evaluator_llm_with_output (sk_plain ''All good.'') (evaluator_messages st_answered ''It is 4.'')
             = Inl (ExternalError ''OutputParserException'')"
    by (simp add: sk_plain_def)
  have b: "evaluator_llm (sk_plain ''All good.'') (evaluator_messages st_answered ''It is 4.'')
             = Inr (''All good.'', [])"
    by (simp add: sk_plain_def)
  show ?thesis using fallback_verdict [OF a b] by simp
qed

text \<open>
  Claim C7. An evaluator run that obtains a verdict returns one assistant message, whose content
  is \<^verbatim>\<open>Evaluator Feedback on this answer: \<close> followed by the feedback of the verdict, and the
  three fields of the verdict; merged into the state, the message is appended to the history
  and \<^verbatim>\<open>feedback_on_work\<close>, \<^verbatim>\<open>success_criteria_met\<close> and \<^verbatim>\<open>user_input_needed\<close> are those of
  the verdict.
\<close>

theorem evaluator_appends_feedback:
  assumes "messages st \<noteq> []"
      and "eval_result sk (evaluator_messages st (content (last (messages st)))) = Inr v"
  shows "evaluator sk st =
           Inr \<lparr>e_messages = [AIMessage (''Evaluator Feedback on this answer: '' @ feedback v) []],
                e_feedback_on_work = feedback v,
                e_success_criteria_met = eo_success_criteria_met v,
                e_user_input_needed = eo_user_input_needed v\<rparr>
         \<and> node_step sk EVALUATOR st =
           Inr (st\<lparr>messages := messages st @
                     [AIMessage (''Evaluator Feedback on this answer: '' @ feedback v) []],
                   feedback_on_work := Some (feedback v),
                   success_criteria_met := eo_success_criteria_met v,
                   user_input_needed := eo_user_input_needed v\<rparr>)"
  using assms by (simp add: evaluator_def add_messages_def Let_def)

theorem evaluator_appends_feedback_witness:
  "messages st_answered \<noteq> []
   \<and> evaluator (sk_judge \<lparr>feedback = ''Correct.'', eo_success_criteria_met = True, eo_user_input_needed = False\<rparr>) st_answered =
       Inr \<lparr>e_messages = [AIMessage ''Evaluator Feedback on this answer: Correct.'' []],
            e_feedback_on_work = ''Correct.'',
            e_success_criteria_met = True,
            e_user_input_needed = False\<rparr>
   \<and> node_step (sk_judge \<lparr>feedback = ''Correct.'', eo_success_criteria_met = True, eo_user_input_needed = False\<rparr>) EVALUATOR st_answered =
       Inr (st_answered\<lparr>messages := [HumanMessage ''What is 2+2?'', AIMessage ''It is 4.'' [],
               AIMessage ''Evaluator Feedback on this answer: Correct.'' []],
             feedback_on_work := Some ''Correct.'', success_criteria_met := True,
             user_input_needed := False\<rparr>)"
proof -
  let ?v = "\<lparr>feedback = ''Correct.'', eo_success_criteria_met = True, eo_user_input_needed = False\<rparr>"
  have a: "messages st_answered \<noteq> []"
    by (simp add: st_answered_def)
  have b: "eval_result (sk_judge ?v) (evaluator_messages st_answered (content (last (messages st_answered)))) = Inr ?v"
    by (simp add: eval_result_def sk_judge_def)
  have m: "messages st_answered = [HumanMessage ''What is 2+2?'', AIMessage ''It is 4.'' []]"
    by (simp add: st_answered_def)
  show ?thesis using a evaluator_appends_feedback [OF a b] by (simp add: m add_messages_def)
qed

section \<open>Teardown\<close>

text \<open>
  Claim C8, as the code has it. \<^verbatim>\<open>cleanup\<close> never clears the browser handle, so a second call
  releases again. With no loop running and a driver that raises on the release of what is
  already released, the first call returns and the second raises; with a loop running the second
  call schedules the two releases a second time.
\<close>

theorem cleanup_twice_releases_again:
  "cleanup self_set (rt_strict False) =
     (None, (rt_strict False)\<lparr>performed := [RunSync CloseBrowser, RunSync StopPlaywright]\<rparr>)
   \<and> cleanup self_set ((rt_strict False)\<lparr>performed := [RunSync CloseBrowser, RunSync StopPlaywright]\<rparr>) =
     (Some (ExternalError ''Target closed''),
      (rt_strict False)\<lparr>performed := [RunSync CloseBrowser, RunSync StopPlaywright]\<rparr>)
   \<and> cleanup self_set (rt_strict True) =
     (None, (rt_strict True)\<lparr>performed := [Scheduled CloseBrowser, Scheduled StopPlaywright]\<rparr>)
   \<and> cleanup self_set ((rt_strict True)\<lparr>performed := [Scheduled CloseBrowser, Scheduled StopPlaywright]\<rparr>) =
     (None, (rt_strict True)\<lparr>performed := [Scheduled CloseBrowser, Scheduled StopPlaywright,
                                               Scheduled CloseBrowser, Scheduled StopPlaywright]\<rparr>)"
  by (simp add: cleanup_def run_sync_def create_task_def self_set_def rt_strict_def)

text \<open>
  Claim C8, amended. \<^verbatim>\<open>cleanup\<close> does nothing on an instance without a browser handle. On an
  instance with one, every call, a repeated one as well, releases the browser and then the
  driver if held: as tasks scheduled on the loop when one is running, and then it raises
  nothing; synchronously when none is running, and then it raises nothing if the releases raise
  nothing, while an exception of the browser's release leaves \<^verbatim>\<open>cleanup\<close> and is caught and
  printed by \<^verbatim>\<open>free_resources\<close>.
\<close>

theorem cleanup_paths:
  "(browser self = None \<longrightarrow> cleanup self rt = (None, rt))
   \<and> (browser self \<noteq> None \<and> loop_running rt \<longrightarrow>
        cleanup self rt =
          (None, rt\<lparr>performed := performed rt @ Scheduled CloseBrowser #
                     (if playwright self \<noteq> None then [Scheduled StopPlaywright] else [])\<rparr>))
   \<and> (browser self \<noteq> None \<and> \<not> loop_running rt \<and> (\<forall>log r. sync_raises rt log r = None) \<longrightarrow>
        cleanup self rt =
          (None, rt\<lparr>performed := performed rt @ RunSync CloseBrowser #
                     (if playwright self \<noteq> None then [RunSync StopPlaywright] else [])\<rparr>))
   \<and> (browser self \<noteq> None \<and> \<not> loop_running rt \<and> sync_raises rt (performed rt) CloseBrowser = Some e \<longrightarrow>
        cleanup self rt = (Some e, rt)
        \<and> free_resources (Some self) rt =
            ([''Cleaning up'', ''Exception during cleanup: '' @ str_error e], rt))"
  by (auto simp: cleanup_def run_sync_def create_task_def free_resources_def)

theorem cleanup_paths_witness:
  "cleanup \<lparr>browser = None, playwright = None\<rparr> (rt_calm False) = (None, rt_calm False)
   \<and> cleanup self_set (rt_calm True) =
       (None, (rt_calm True)\<lparr>performed := [Scheduled CloseBrowser, Scheduled StopPlaywright]\<rparr>)
   \<and> cleanup self_set (rt_calm False) =
       (None, (rt_calm False)\<lparr>performed := [RunSync CloseBrowser, RunSync StopPlaywright]\<rparr>)
   \<and> cleanup self_set ((rt_strict False)\<lparr>performed := [RunSync CloseBrowser]\<rparr>) =
       (Some (ExternalError ''Target closed''), (rt_strict False)\<lparr>performed := [RunSync CloseBrowser]\<rparr>)
   \<and> free_resources (Some self_set) ((rt_strict False)\<lparr>performed := [RunSync CloseBrowser]\<rparr>) =
       ([''Cleaning up'', ''Exception during cleanup: Target closed''],
        (rt_strict False)\<lparr>performed := [RunSync CloseBrowser]\<rparr>)"
  using cleanup_paths [of "\<lparr>browser = None, playwright = None\<rparr>" "rt_calm False"]
    cleanup_paths [of self_set "rt_calm True"]
    cleanup_paths [of self_set "rt_calm False"]
    cleanup_paths [of self_set "(rt_strict False)\<lparr>performed := [RunSync CloseBrowser]\<rparr>" "ExternalError ''Target closed''"]
  by (simp add: self_set_def rt_calm_def rt_strict_def)

section \<open>The calendar tools\<close>

text \<open>
  Claim C9, as the code has it. Both tools build the service before any \<^verbatim>\<open>try\<close>, so a missing
  token file raises out of both; \<^verbatim>\<open>list_upcoming_events\<close> has no handler at all, so a refused
  listing raises, and so does an event without a \<^verbatim>\<open>summary\<close>.
\<close>

theorem calendar_tools_raise:
  "create_calendar_event cal_no_token ''Standup'' ''2025-05-20T15:00:00'' ''2025-05-20T16:00:00'' [] None ''UTC'' =
     Inl (ExternalError ''No such file or directory: token.json'')
   \<and> list_upcoming_events cal_no_token None 5 =
     Inl (ExternalError ''No such file or directory: token.json'')
   \<and> list_upcoming_events cal_refused None 5 = Inl (ExternalError ''HttpError 403'')
   \<and> list_upcoming_events
        (cal_ok [\<lparr>ev_start = Some (Some ''2025-05-21T09:00:00'', None), ev_summary = None\<rparr>]) None 5 =
     Inl KeyError"
  by (simp add: create_calendar_event_def list_upcoming_events_def cal_no_token_def
      cal_refused_def cal_ok_def cal_id_of_def event_line_def)

lemma event_lines_ok:
  "\<forall>evt \<in> set evts. ev_start evt \<noteq> None \<and> ev_summary evt \<noteq> None \<Longrightarrow>
     \<exists>ls. event_lines evts acc = Inr ls"
proof (induction evts arbitrary: acc)
  case Nil
  show ?case by simp
next
  case (Cons evt evts)
  from Cons.prems obtain dt d s where "ev_start evt = Some (dt, d)" "ev_summary evt = Some s"
    by auto
  then have "\<exists>l. event_line evt = Inr l"
    by (simp add: event_line_def)
  then obtain l where l: "event_line evt = Inr l" ..
  from Cons.prems have "\<forall>e \<in> set evts. ev_start e \<noteq> None \<and> ev_summary e \<noteq> None"
    by simp
  from Cons.IH [OF this, of "acc @ [l]"] l show ?case by simp
qed

lemma create_text:
  "get_calendar_service cal = None \<Longrightarrow>
     \<exists>rest. create_calendar_event cal summary start_iso end_iso description calendar_id timezone = Inr (''Event created: '' @ rest)
          \<or> create_calendar_event cal summary start_iso end_iso description calendar_id timezone = Inr (''Calendar API error: '' @ rest)
          \<or> create_calendar_event cal summary start_iso end_iso description calendar_id timezone = Inr (''Calendar API exception: '' @ rest)"
  unfolding create_calendar_event_def Let_def
  by (simp split: sum.split api_exception.split http_content.split option.split)

text \<open>
  Claim C9, amended. Once the calendar service is built, \<^verbatim>\<open>create_calendar_event\<close> returns a
  text for every input and every outcome of the insertion: \<^verbatim>\<open>Event created: ...\<close>,
  \<^verbatim>\<open>Calendar API error: ...\<close> or \<^verbatim>\<open>Calendar API exception: ...\<close>. \<^verbatim>\<open>list_upcoming_events\<close>
  returns a text when the service is built, the listing call returns, and every event listed
  has a \<^verbatim>\<open>start\<close> and a \<^verbatim>\<open>summary\<close>.
\<close>

theorem calendar_tools_text:
  "(get_calendar_service cal = None \<longrightarrow>
      (\<exists>rest.
         create_calendar_event cal summary start_iso end_iso description calendar_id timezone =
           Inr (''Event created: '' @ rest)
       \<or> create_calendar_event cal summary start_iso end_iso description calendar_id timezone =
           Inr (''Calendar API error: '' @ rest)
       \<or> create_calendar_event cal summary start_iso end_iso description calendar_id timezone =
           Inr (''Calendar API exception: '' @ rest)))
   \<and> (get_calendar_service cal = None
        \<and> events_list cal (cal_id_of cal cid) (utcnow_isoformat cal @ ''Z'') max_results = Inr evts
        \<and> (\<forall>evt \<in> set evts. ev_start evt \<noteq> None \<and> ev_summary evt \<noteq> None) \<longrightarrow>
      (\<exists>text. list_upcoming_events cal cid max_results = Inr text))"
proof -
  have b: "\<exists>text. list_upcoming_events cal cid max_results = Inr text"
    if s: "get_calendar_service cal = None"
      and l: "events_list cal (cal_id_of cal cid) (utcnow_isoformat cal @ ''Z'') max_results = Inr evts"
      and e: "\<forall>evt \<in> set evts. ev_start evt \<noteq> None \<and> ev_summary evt \<noteq> None"
  proof -
    from event_lines_ok [OF e, of "[]"] obtain ls where "event_lines evts [] = Inr ls" ..
    with s l show ?thesis by (simp add: list_upcoming_events_def Let_def)
  qed
  from create_text b show ?thesis by blast
qed

theorem calendar_tools_text_witness:
  "create_calendar_event (cal_ok []) ''Standup'' ''2025-05-20T15:00:00'' ''2025-05-20T16:00:00'' [] None ''UTC'' =
     Inr ''Event created: https://calendar.example/e1''
   \<and> create_calendar_event cal_refused ''Standup'' ''2025-05-20T15:00:00'' ''2025-05-20T16:00:00'' [] None ''UTC'' =
     Inr ''Calendar API error: Forbidden''
   \<and> list_upcoming_events (cal_ok []) None 5 = Inr ''No upcoming events found.''
   \<and> list_upcoming_events
        (cal_ok [\<lparr>ev_start = Some (Some ''2025-05-21T09:00:00'', None), ev_summary = Some ''Standup''\<rparr>]) None 5 =
     Inr (''2025-05-21T09:00:00'' @ line_separator @ ''Standup'')"
proof -
  let ?evs = "[\<lparr>ev_start = Some (Some ''2025-05-21T09:00:00'', None), ev_summary = Some ''Standup''\<rparr>]"
  have a: "create_calendar_event (cal_ok []) ''Standup'' ''2025-05-20T15:00:00'' ''2025-05-20T16:00:00'' [] None ''UTC'' =
     Inr ''Event created: https://calendar.example/e1''"
    by (simp add: create_calendar_event_def cal_ok_def cal_id_of_def)
  have b: "create_calendar_event cal_refused ''Standup'' ''2025-05-20T15:00:00'' ''2025-05-20T16:00:00'' [] None ''UTC'' =
     Inr ''Calendar API error: Forbidden''"
    by (simp add: create_calendar_event_def cal_refused_def cal_id_of_def)
  have c: "list_upcoming_events (cal_ok []) None 5 = Inr ''No upcoming events found.''"
    by (simp add: list_upcoming_events_def cal_ok_def cal_id_of_def)
  have s: "get_calendar_service (cal_ok ?evs) = None"
    by (simp add: cal_ok_def)
  have l: "events_list (cal_ok ?evs) (cal_id_of (cal_ok ?evs) None) (utcnow_isoformat (cal_ok ?evs) @ ''Z'') 5 = Inr ?evs"
    by (simp add: cal_ok_def)
  have e: "\<forall>evt \<in> set ?evs. ev_start evt \<noteq> None \<and> ev_summary evt \<noteq> None"
    by simp
  from calendar_tools_text [of "cal_ok ?evs" _ _ _ _ _ _ None 5 ?evs] s l e
  have d: "\<exists>text. list_upcoming_events (cal_ok ?evs) None 5 = Inr text"
    by blast
  have v: "list_upcoming_events (cal_ok ?evs) None 5 =
     Inr (''2025-05-21T09:00:00'' @ line_separator @ ''Standup'')"
    by (simp add: list_upcoming_events_def cal_ok_def cal_id_of_def event_line_def)
  from a b c d v show ?thesis by simp
qed

section \<open>A turn\<close>

lemma successor_END:
  "successor n st = Inr END \<Longrightarrow> n = EVALUATOR"
  by (cases n) (auto simp: worker_router_def lookup_edge_def split: if_splits sum.splits)

lemma node_step_evaluator_messages:
  assumes "node_step sk EVALUATOR st = Inr st'"
  shows "messages st \<noteq> [] \<and> length (messages st') = Suc (length (messages st))"
proof -
  from assms have ne: "messages st \<noteq> []"
    by (auto simp: evaluator_def split: if_splits)
  from assms ne obtain u where u: "evaluator sk st = Inr u"
    and st': "st' = st\<lparr>messages := add_messages (messages st) (e_messages u),
                  feedback_on_work := Some (e_feedback_on_work u),
                  success_criteria_met := e_success_criteria_met u,
                  user_input_needed := e_user_input_needed u\<rparr>"
    by (auto split: sum.splits)
  from u ne have "length (e_messages u) = 1"
    by (auto simp: evaluator_def Let_def split: sum.splits)
  with st' ne show ?thesis by (simp add: add_messages_def)
qed

lemma finished_two_messages:
  "run_graph sk k n st tr = Finished r tr' \<Longrightarrow> 2 \<le> length (messages r)"
proof (induction k arbitrary: n st tr)
  case 0
  then show ?case by simp
next
  case (Suc k)
  from Suc.prems obtain st' where step: "node_step sk n st = Inr st'"
    by (auto split: sum.splits)
  from Suc.prems step obtain t where succ: "successor n st' = Inr t"
    by (auto split: sum.splits)
  show ?case
  proof (cases t)
    case END
    with succ have n: "n = EVALUATOR" by (simp add: successor_END)
    from Suc.prems step succ END have "r = st'" by simp
    moreover from step n have "messages st \<noteq> [] \<and> length (messages st') = Suc (length (messages st))"
      by (simp add: node_step_evaluator_messages)
    ultimately show ?thesis by (cases "messages st") simp_all
  next
    case (Node n')
    with Suc.prems step succ have "run_graph sk k n' st' (tr @ [n]) = Finished r tr'" by simp
    then show ?thesis by (rule Suc.IH)
  qed
qed

text \<open>
  Claim C6. The state that \<^verbatim>\<open>run_superstep\<close> hands to the graph holds the message of the user,
  no feedback, both flags false and the counter at 0, and the criteria of the caller or, when
  these are absent or empty, the fixed fallback text. When the graph run comes to its end, the
  result has at least two messages and \<^verbatim>\<open>run_superstep\<close> returns the history it was given
  followed by exactly three entries: the message of the user, the content of the
  second-to-last message of the run and the content of its last message.
\<close>

theorem run_superstep_history:
  "messages (superstep_state message criteria) = [HumanMessage message]
   \<and> feedback_on_work (superstep_state message criteria) = None
   \<and> success_criteria_met (superstep_state message criteria) = False
   \<and> user_input_needed (superstep_state message criteria) = False
   \<and> iterations (superstep_state message criteria) = Some 0
   \<and> success_criteria (superstep_state message None) = ''The answer should be clear and accurate''
   \<and> success_criteria (superstep_state message (Some [])) = ''The answer should be clear and accurate''
   \<and> success_criteria (superstep_state message (Some (c # cs))) = c # cs
   \<and> (ainvoke sk fuel prior (superstep_state message criteria) = Finished result tr \<longrightarrow>
        2 \<le> length (messages result)
        \<and> run_superstep sk fuel prior message criteria history =
            Some (Inr (history @
              [(''user'', message),
               (''assistant'', content (messages result ! (length (messages result) - 2))),
               (''assistant'', content (messages result ! (length (messages result) - 1)))])))"
proof -
  have run: "2 \<le> length (messages result)
        \<and> run_superstep sk fuel prior message criteria history =
            Some (Inr (history @
              [(''user'', message),
               (''assistant'', content (messages result ! (length (messages result) - 2))),
               (''assistant'', content (messages result ! (length (messages result) - 1)))]))"
    if fin: "ainvoke sk fuel prior (superstep_state message criteria) = Finished result tr"
  proof -
    from fin have two: "2 \<le> length (messages result)"
      unfolding ainvoke_def by (rule finished_two_messages)
    with fin show ?thesis
      by (simp add: run_superstep_def from_end_def)
  qed
  have fields: "messages (superstep_state message criteria) = [HumanMessage message]
   \<and> feedback_on_work (superstep_state message criteria) = None
   \<and> success_criteria_met (superstep_state message criteria) = False
   \<and> user_input_needed (superstep_state message criteria) = False
   \<and> iterations (superstep_state message criteria) = Some 0
   \<and> success_criteria (superstep_state message None) = ''The answer should be clear and accurate''
   \<and> success_criteria (superstep_state message (Some [])) = ''The answer should be clear and accurate''
   \<and> success_criteria (superstep_state message (Some (c # cs))) = c # cs"
    by (simp add: superstep_state_def)
  from fields run show ?thesis by blast
qed

lemma one_round:
  "ainvoke (sk_judge verdict_met) (Suc (Suc 0)) [] (superstep_state ''What is 2+2?'' (Some ''a numeric answer'')) =
     Finished
       \<lparr>messages = [HumanMessage ''What is 2+2?'', AIMessage ''It is 4.'' [],
                    AIMessage ''Evaluator Feedback on this answer: Correct.'' []],
        success_criteria = ''a numeric answer'', feedback_on_work = Some ''Correct.'',
        success_criteria_met = True, user_input_needed = False, subtasks = None,
        iterations = Some 1\<rparr>
       [WORKER, EVALUATOR]"
  by (simp add: ainvoke_def superstep_state_def sk_judge_def verdict_met_def worker_def
      insert_or_replace_def evaluator_def eval_result_def add_messages_def worker_router_def
      lookup_edge_def route_based_on_evaluation_def max_iterations_def Let_def)

theorem run_superstep_history_witness:
  "run_superstep (sk_judge verdict_met) (Suc (Suc 0)) [] ''What is 2+2?'' (Some ''a numeric answer'')
       [(''user'', ''Hello''), (''assistant'', ''Hi'')] =
     Some (Inr [(''user'', ''Hello''), (''assistant'', ''Hi''),
                (''user'', ''What is 2+2?''), (''assistant'', ''It is 4.''),
                (''assistant'', ''Evaluator Feedback on this answer: Correct.'')])"
  using run_superstep_history [of "''What is 2+2?''" "Some ''a numeric answer''" _ _ "sk_judge verdict_met"
      "Suc (Suc 0)" "[]" _ "[WORKER, EVALUATOR]" "[(''user'', ''Hello''), (''assistant'', ''Hi'')]"]
    one_round
  by simp

section \<open>The iteration cap\<close>

lemma node_step_worker_absent:
  "\<not> list_ex is_system (messages st) \<Longrightarrow>
     node_step sk WORKER st =
       (case worker_llm_with_tools sk (SystemMessage (worker_system_message (now sk) st) # messages st) of
          Inl e \<Rightarrow> Inl e
        | Inr (c, tcs) \<Rightarrow>
            Inr (st\<lparr>messages := messages st @ [AIMessage c tcs],
                    iterations := (if graph_keeps_undeclared sk
                                   then Some ((case iterations st of None \<Rightarrow> 0 | Some i \<Rightarrow> i) + 1)
                                   else iterations st)\<rparr>))"
  by (simp add: worker_absent add_messages_def split: sum.splits)

lemma node_step_evaluator_present:
  "messages st \<noteq> [] \<Longrightarrow>
     node_step sk EVALUATOR st =
       (case eval_result sk (evaluator_messages st (content (last (messages st)))) of
          Inl e \<Rightarrow> Inl e
        | Inr v \<Rightarrow>
            Inr (st\<lparr>messages := messages st @
                      [AIMessage (''Evaluator Feedback on this answer: '' @ feedback v) []],
                    feedback_on_work := Some (feedback v),
                    success_criteria_met := eo_success_criteria_met v,
                    user_input_needed := eo_user_input_needed v\<rparr>))"
  by (simp add: evaluator_def add_messages_def Let_def split: sum.splits)

text \<open>
  Claim C1, as the code has it. The cap is tested only on the way out of the evaluator, so the
  rounds between the worker and the tools are not counted against it. With a worker model that
  asks for a search ten times and then answers, and an evaluator that accepts the answer, the
  turn comes to its end after eleven worker runs, with the counter at 11.
\<close>

theorem tool_rounds_pass_the_cap:
  "halted (ainvoke sk_search 22 [] (superstep_state ''Capital of France?'' None))
   \<and> worker_runs (ainvoke sk_search 22 [] (superstep_state ''Capital of France?'' None)) = 11
   \<and> iterations_at_end (ainvoke sk_search 22 [] (superstep_state ''Capital of France?'' None)) = Some 11"
  unfolding ainvoke_def worker_runs_def iterations_at_end_def
  by (simp add: eval_nat_numeral node_step_worker_absent superstep_state_def add_messages_def
      sk_search_def tool_node_def worker_router_def lookup_edge_def evaluator_def eval_result_def
      route_based_on_evaluation_def max_iterations_def verdict_met_def Let_def
      del: node_step.simps(1))

lemma rounds_without_tools:
  assumes keep: "graph_keeps_undeclared sk"
      and no_tools: "\<forall>msgs c tcs. worker_llm_with_tools sk msgs = Inr (c, tcs) \<longrightarrow> tcs = []"
  shows "\<not> list_ex is_system (messages st) \<Longrightarrow>
         iterations st = Some (int (count_list tr WORKER)) \<Longrightarrow>
         count_list tr WORKER + d = 10 \<Longrightarrow> 0 < d \<Longrightarrow> 2 * d \<le> fuel \<Longrightarrow>
         turn_ok (run_graph sk fuel WORKER st tr)"
proof (induction d arbitrary: fuel st tr)
  case 0
  then show ?case by simp
next
  case (Suc d)
  let ?c = "count_list tr WORKER"
  let ?p = "SystemMessage (worker_system_message (now sk) st) # messages st"
  from Suc.prems obtain k where fuel: "fuel = Suc (Suc k)" and k: "2 * d \<le> k"
    by (cases fuel; cases "fuel - 1") auto
  note nosys = Suc.prems(1)
  note iter = Suc.prems(2)
  from Suc.prems have c: "?c + Suc d = 10" by simp
  show ?case
  proof (cases "worker_llm_with_tools sk ?p")
    case (Inl e)
    with nosys c show ?thesis
      by (simp add: fuel node_step_worker_absent turn_ok_def worker_runs_def del: node_step.simps)
  next
    case (Inr resp)
    obtain ct tcs where resp: "resp = (ct, tcs)" by (cases resp)
    with Inr no_tools have tcs: "tcs = []" by blast
    define st1 where "st1 = st\<lparr>messages := messages st @ [AIMessage ct []],
                                iterations := Some (int ?c + 1)\<rparr>"
    from Inr resp tcs nosys keep iter have w: "node_step sk WORKER st = Inr st1"
      by (simp add: node_step_worker_absent st1_def del: node_step.simps)
    have r1: "successor WORKER st1 = Inr (Node EVALUATOR)"
      by (simp add: st1_def worker_router_def lookup_edge_def)
    have ne1: "messages st1 \<noteq> []" by (simp add: st1_def)
    from w r1 have run1: "run_graph sk fuel WORKER st tr = run_graph sk (Suc k) EVALUATOR st1 (tr @ [WORKER])"
      by (simp add: fuel del: node_step.simps successor.simps)
    show ?thesis
    proof (cases "eval_result sk (evaluator_messages st1 (content (last (messages st1))))")
      case (Inl e)
      with ne1 c show ?thesis
        by (simp add: run1 node_step_evaluator_present turn_ok_def worker_runs_def
            del: node_step.simps)
    next
      case (Inr v)
      define st2 where "st2 = st1\<lparr>messages := messages st1 @
                      [AIMessage (''Evaluator Feedback on this answer: '' @ feedback v) []],
                    feedback_on_work := Some (feedback v),
                    success_criteria_met := eo_success_criteria_met v,
                    user_input_needed := eo_user_input_needed v\<rparr>"
      from Inr ne1 have e: "node_step sk EVALUATOR st1 = Inr st2"
        by (simp add: node_step_evaluator_present st2_def del: node_step.simps)
      have it2: "iterations st2 = Some (int ?c + 1)" by (simp add: st2_def st1_def)
      have r2: "successor EVALUATOR st2 =
                  Inr (if int ?c + 1 \<ge> 10 \<or> success_criteria_met st2 \<or> user_input_needed st2
                       then END else Node WORKER)"
        by (simp add: route_based_on_evaluation_def lookup_edge_def max_iterations_def it2)
      show ?thesis
      proof (cases "int ?c + 1 \<ge> 10 \<or> success_criteria_met st2 \<or> user_input_needed st2")
        case True
        with e r2 have fin: "run_graph sk (Suc k) EVALUATOR st1 (tr @ [WORKER]) =
                          Finished st2 (tr @ [WORKER, EVALUATOR])"
          by (simp del: node_step.simps successor.simps)
        from True c it2 show ?thesis
          unfolding run1 fin by (auto simp: turn_ok_def worker_runs_def)
      next
        case False
        with e r2 have run2: "run_graph sk (Suc k) EVALUATOR st1 (tr @ [WORKER]) =
                          run_graph sk k WORKER st2 (tr @ [WORKER, EVALUATOR])"
          by (simp del: node_step.simps successor.simps)
        from nosys have ns2: "\<not> list_ex is_system (messages st2)"
          by (simp add: st2_def st1_def)
        have i2: "iterations st2 = Some (int (count_list (tr @ [WORKER, EVALUATOR]) WORKER))"
          by (simp add: it2)
        from c have c2: "count_list (tr @ [WORKER, EVALUATOR]) WORKER + d = 10" by simp
        from False c have d0: "0 < d" by simp
        from Suc.IH [OF ns2 i2 c2 d0 k] show ?thesis
          by (simp only: run1 run2)
      qed
    qed
  qed
qed


lemma ten_rejections:
  "worker_runs (ainvoke (sk_judge verdict_rejected) 20 [] (superstep_state ''What is 2+2?'' None)) = 10
   \<and> iterations_at_end (ainvoke (sk_judge verdict_rejected) 20 [] (superstep_state ''What is 2+2?'' None)) = Some 10"
  unfolding ainvoke_def worker_runs_def iterations_at_end_def
  by (simp add: eval_nat_numeral node_step_worker_absent node_step_evaluator_present
      superstep_state_def add_messages_def sk_judge_def
      worker_router_def lookup_edge_def eval_result_def
      route_based_on_evaluation_def max_iterations_def verdict_rejected_def
      del: node_step.simps)

lemma tool_messages_no_system:
  "\<not> list_ex is_system (map (\<lambda>tc. ToolMessage (f tc)) tcs)"
  by (induction tcs) simp_all

lemma node_step_tools:
  "node_step sk TOOLS st = Inr st' \<Longrightarrow>
     st' = st\<lparr>messages := messages st @
             map (\<lambda>tc. ToolMessage (run_tool sk tc)) (pending_tool_calls (last (messages st)))\<rparr>"
  by (auto simp: tool_node_def add_messages_def split: if_splits)

lemma successor_worker_cases:
  "successor WORKER st = Inl IndexError \<or> successor WORKER st = Inr (Node TOOLS)
   \<or> successor WORKER st = Inr (Node EVALUATOR)"
  by (simp add: worker_router_def lookup_edge_def Let_def)

lemma counts_of_any_run:
  assumes keep: "graph_keeps_undeclared sk"
  shows "entry_ok n st tr \<Longrightarrow> counts_ok (run_graph sk fuel n st tr)"
proof (induction fuel arbitrary: n st tr)
  case 0
  then show ?case by (simp add: entry_ok_def counts_ok_def)
next
  case (Suc k)
  note ok = Suc.prems
  show ?case
  proof (cases "node_step sk n st")
    case (Inl e)
    with ok show ?thesis
      by (cases n) (simp_all add: entry_ok_def counts_ok_def del: node_step.simps)
  next
    case (Inr st')
    show ?thesis
    proof (cases n)
      case WORKER
      from ok WORKER have ns: "\<not> list_ex is_system (messages st)"
        and it: "iterations st = Some (int (count_list tr WORKER))"
        and e9: "count_list tr EVALUATOR \<le> 9"
        and w: "count_list tr WORKER = count_list tr EVALUATOR + count_list tr TOOLS"
        by (simp_all add: entry_ok_def)
      from Inr WORKER ns keep it obtain c tcs where
        st': "st' = st\<lparr>messages := messages st @ [AIMessage c tcs],
                       iterations := Some (int (count_list tr WORKER) + 1)\<rparr>"
        by (auto simp: node_step_worker_absent split: sum.splits simp del: node_step.simps)
      from st' ns have ns': "\<not> list_ex is_system (messages st')" by simp
      from st' have it': "iterations st' = Some (int (count_list (tr @ [WORKER]) WORKER))" by simp
      have next_ok: "entry_ok n' st' (tr @ [WORKER])" if "n' \<noteq> WORKER" for n'
        using that ns' it' e9 w by (simp add: entry_ok_def)
      from successor_worker_cases [of st'] show ?thesis
      proof (elim disjE)
        assume "successor WORKER st' = Inl IndexError"
        with Inr WORKER e9 w show ?thesis
          by (simp add: counts_ok_def del: node_step.simps successor.simps)
      next
        assume s: "successor WORKER st' = Inr (Node TOOLS)"
        have "counts_ok (run_graph sk k TOOLS st' (tr @ [WORKER]))"
          by (rule Suc.IH) (simp add: next_ok)
        with Inr WORKER s show ?thesis
          by (simp del: node_step.simps successor.simps)
      next
        assume s: "successor WORKER st' = Inr (Node EVALUATOR)"
        have "counts_ok (run_graph sk k EVALUATOR st' (tr @ [WORKER]))"
          by (rule Suc.IH) (simp add: next_ok)
        with Inr WORKER s show ?thesis
          by (simp del: node_step.simps successor.simps)
      qed
    next
      case TOOLS
      from ok TOOLS have ns: "\<not> list_ex is_system (messages st)"
        and it: "iterations st = Some (int (count_list tr WORKER))"
        and e9: "count_list tr EVALUATOR \<le> 9"
        and w: "count_list tr WORKER = count_list tr EVALUATOR + count_list tr TOOLS + 1"
        by (simp_all add: entry_ok_def)
      from Inr TOOLS have st': "st' = st\<lparr>messages := messages st @
             map (\<lambda>tc. ToolMessage (run_tool sk tc)) (pending_tool_calls (last (messages st)))\<rparr>"
        by (simp add: node_step_tools del: node_step.simps)
      from st' ns it e9 w have "entry_ok WORKER st' (tr @ [TOOLS])"
        by (simp add: entry_ok_def tool_messages_no_system)
      then have "counts_ok (run_graph sk k WORKER st' (tr @ [TOOLS]))"
        by (rule Suc.IH)
      with Inr TOOLS show ?thesis
        by (simp del: node_step.simps)
    next
      case EVALUATOR
      from ok EVALUATOR have ns: "\<not> list_ex is_system (messages st)"
        and it: "iterations st = Some (int (count_list tr WORKER))"
        and e9: "count_list tr EVALUATOR \<le> 9"
        and w: "count_list tr WORKER = count_list tr EVALUATOR + count_list tr TOOLS + 1"
        by (simp_all add: entry_ok_def)
      from Inr EVALUATOR have ne: "messages st \<noteq> []"
        by (simp add: node_step_evaluator_messages del: node_step.simps)
      from Inr EVALUATOR ne obtain v :: EvaluatorOutput where
        st': "st' = st\<lparr>messages := messages st @
                      [AIMessage (''Evaluator Feedback on this answer: '' @ feedback v) []],
                    feedback_on_work := Some (feedback v),
                    success_criteria_met := eo_success_criteria_met v,
                    user_input_needed := eo_user_input_needed v\<rparr>"
        by (auto simp: node_step_evaluator_present split: sum.splits simp del: node_step.simps)
      from st' ns have ns': "\<not> list_ex is_system (messages st')" by simp
      from st' it have it': "iterations st' = Some (int (count_list tr WORKER))" by simp
      have r: "successor EVALUATOR st' =
                  Inr (if int (count_list tr WORKER) \<ge> 10 \<or> success_criteria_met st' \<or> user_input_needed st'
                       then END else Node WORKER)"
        by (simp add: route_based_on_evaluation_def lookup_edge_def max_iterations_def it')
      show ?thesis
      proof (cases "int (count_list tr WORKER) \<ge> 10 \<or> success_criteria_met st' \<or> user_input_needed st'")
        case True
        with Inr EVALUATOR r have "run_graph sk (Suc k) n st tr = Finished st' (tr @ [EVALUATOR])"
          by (simp del: node_step.simps successor.simps)
        with it' e9 w EVALUATOR show ?thesis
          by (simp add: counts_ok_def)
      next
        case False
        then have lt: "count_list tr WORKER < 10" by simp
        with ns' it' e9 w have "entry_ok WORKER st' (tr @ [EVALUATOR])"
          by (simp add: entry_ok_def)
        then have "counts_ok (run_graph sk k WORKER st' (tr @ [EVALUATOR]))"
          by (rule Suc.IH)
        with Inr EVALUATOR r False show ?thesis
          by (simp del: node_step.simps successor.simps)
      qed
    qed
  qed
qed


lemma ainvoke_entry_ok:
  assumes keep: "graph_keeps_undeclared sk"
      and prior: "\<not> list_ex is_system prior"
  shows "entry_ok WORKER
           ((superstep_state message criteria)\<lparr>messages := add_messages prior
                 (messages (superstep_state message criteria)),
               iterations := (if graph_keeps_undeclared sk
                              then iterations (superstep_state message criteria) else None)\<rparr>) []"
  using keep prior by (simp add: entry_ok_def superstep_state_def add_messages_def)

lemma ainvoke_turn_ok:
  assumes keep: "graph_keeps_undeclared sk"
      and prior: "\<not> list_ex is_system prior"
      and no_tools: "\<forall>msgs c tcs. worker_llm_with_tools sk msgs = Inr (c, tcs) \<longrightarrow> tcs = []"
      and fuel: "20 \<le> fuel"
  shows "turn_ok (ainvoke sk fuel prior (superstep_state message criteria))"
proof -
  let ?st = "(superstep_state message criteria)\<lparr>messages := add_messages prior
                 (messages (superstep_state message criteria)),
               iterations := (if graph_keeps_undeclared sk
                              then iterations (superstep_state message criteria) else None)\<rparr>"
  from prior have a: "\<not> list_ex is_system (messages ?st)"
    by (simp add: superstep_state_def add_messages_def)
  from keep have b: "iterations ?st = Some (int (count_list [] WORKER))"
    by (simp add: superstep_state_def)
  have c: "count_list [] WORKER + 10 = (10::nat)" by simp
  from fuel have f: "2 * 10 \<le> fuel" by simp
  have "turn_ok (run_graph sk fuel WORKER ?st [])"
    by (rule rounds_without_tools [OF keep no_tools a b c _ f]) simp
  then show ?thesis
    unfolding ainvoke_def .
qed

text \<open>
  Claim C1, amended. Take a turn whose stored history holds no system message, on a graph that
  stores the counter. However long it runs, the evaluator runs at most 10 times and the worker
  at most once more than the evaluator and the tools together; at the end of the turn the
  counter is the number of worker runs, which is the number of evaluator runs plus the number
  of tool rounds. If, moreover, the worker model never requests a tool, the turn stops within 20
  node runs, the worker has run at most 10 times, and at the end the counter is at most 10 and
  the turn ended on one of the two flags or with the counter at 10: so also when the evaluator
  never reports success or a need for user input.
\<close>

theorem iteration_cap_of_a_turn:
  assumes keep: "graph_keeps_undeclared sk"
      and prior: "\<not> list_ex is_system prior"
  shows "(let out = ainvoke sk fuel prior (superstep_state message criteria) in
           count_list (trace_of out) EVALUATOR \<le> 10
           \<and> worker_runs out \<le> count_list (trace_of out) EVALUATOR + count_list (trace_of out) TOOLS + 1
           \<and> (case final_state out of
                 None \<Rightarrow> True
               | Some st \<Rightarrow>
                   iterations st = Some (int (worker_runs out))
                   \<and> worker_runs out =
                       count_list (trace_of out) EVALUATOR + count_list (trace_of out) TOOLS)
           \<and> ((\<forall>msgs c tcs. worker_llm_with_tools sk msgs = Inr (c, tcs) \<longrightarrow> tcs = []) \<and> 20 \<le> fuel \<longrightarrow>
                halted out \<and> worker_runs out \<le> 10
                \<and> (case final_state out of
                      None \<Rightarrow> True
                    | Some st \<Rightarrow>
                        iterations st = Some (int (worker_runs out))
                        \<and> (success_criteria_met st \<or> user_input_needed st
                             \<or> iterations st = Some 10))))"
proof -
  let ?out = "ainvoke sk fuel prior (superstep_state message criteria)"
  have "counts_ok ?out"
    unfolding ainvoke_def
    by (rule counts_of_any_run [OF keep ainvoke_entry_ok [OF keep prior]])
  then have general: "count_list (trace_of ?out) EVALUATOR \<le> 10
           \<and> worker_runs ?out \<le> count_list (trace_of ?out) EVALUATOR + count_list (trace_of ?out) TOOLS + 1
           \<and> (case final_state ?out of
                 None \<Rightarrow> True
               | Some st \<Rightarrow>
                   iterations st = Some (int (worker_runs ?out))
                   \<and> worker_runs ?out =
                       count_list (trace_of ?out) EVALUATOR + count_list (trace_of ?out) TOOLS)"
    unfolding counts_ok_def worker_runs_def .
  have special: "halted ?out \<and> worker_runs ?out \<le> 10
                \<and> (case final_state ?out of
                      None \<Rightarrow> True
                    | Some st \<Rightarrow>
                        iterations st = Some (int (worker_runs ?out))
                        \<and> (success_criteria_met st \<or> user_input_needed st
                             \<or> iterations st = Some 10))"
    if no_tools: "\<forall>msgs c tcs. worker_llm_with_tools sk msgs = Inr (c, tcs) \<longrightarrow> tcs = []"
      and fuel: "20 \<le> fuel"
    using ainvoke_turn_ok [OF keep prior no_tools fuel, of message criteria]
    unfolding turn_ok_def .
  from general special show ?thesis
    unfolding Let_def by blast
qed

theorem iteration_cap_of_a_turn_witness:
  "graph_keeps_undeclared (sk_judge verdict_rejected)
   \<and> \<not> list_ex is_system []
   \<and> halted (ainvoke (sk_judge verdict_rejected) 20 [] (superstep_state ''What is 2+2?'' None))
   \<and> worker_runs (ainvoke (sk_judge verdict_rejected) 20 [] (superstep_state ''What is 2+2?'' None)) = 10
   \<and> iterations_at_end (ainvoke (sk_judge verdict_rejected) 20 [] (superstep_state ''What is 2+2?'' None)) = Some 10
   \<and> count_list (trace_of (ainvoke (sk_judge verdict_rejected) 20 [] (superstep_state ''What is 2+2?'' None))) EVALUATOR \<le> 10"
proof -
  have keep: "graph_keeps_undeclared (sk_judge verdict_rejected)"
    by (simp add: sk_judge_def)
  have no_tools: "\<forall>msgs c tcs. worker_llm_with_tools (sk_judge verdict_rejected) msgs = Inr (c, tcs) \<longrightarrow> tcs = []"
    by (simp add: sk_judge_def)
  have prior: "\<not> list_ex is_system []" by simp
  have fuel: "(20::nat) \<le> 20" by simp
  from iteration_cap_of_a_turn [OF keep prior, of 20 "''What is 2+2?''" None] no_tools fuel
  have "halted (ainvoke (sk_judge verdict_rejected) 20 [] (superstep_state ''What is 2+2?'' None))
        \<and> count_list (trace_of (ainvoke (sk_judge verdict_rejected) 20 [] (superstep_state ''What is 2+2?'' None))) EVALUATOR \<le> 10"
    unfolding Let_def by blast
  with keep ten_rejections show ?thesis by simp
qed

end
